theory Spec2Isabelle
  imports Main "HOL-Library.Sublist" "HOL-Library.AList"
begin

section \<open>Strings\<close>

text \<open>
  Python strings are modelled as \<open>string\<close> (lists of 8-bit characters); the
  identifiers, language tags and file names of the program are ASCII.
\<close>

definition py_replace_del :: "char \<Rightarrow> string \<Rightarrow> string" where
  \<comment> \<open>\<^verbatim>\<open>s.replace(c, "")\<close> for a one-character pattern: every occurrence is removed.\<close>
  "py_replace_del c s = filter (\<lambda>x. x \<noteq> c) s"

definition lower_char :: "char \<Rightarrow> char" where
  "lower_char c =
     (case map_of (zip ''ABCDEFGHIJKLMNOPQRSTUVWXYZ'' ''abcdefghijklmnopqrstuvwxyz'') c of
        None \<Rightarrow> c
      | Some l \<Rightarrow> l)"

definition lower :: "string \<Rightarrow> string" where
  \<comment> \<open>\<^verbatim>\<open>str.lower()\<close> on ASCII text.\<close>
  "lower s = map lower_char s"

definition endswith :: "string \<Rightarrow> string \<Rightarrow> bool" where
  \<comment> \<open>\<^verbatim>\<open>s.endswith(t)\<close>\<close>
  "endswith s t = (take (length t) (rev s) = rev t)"

fun split_sep :: "char \<Rightarrow> string \<Rightarrow> string list" where
  \<comment> \<open>\<^verbatim>\<open>s.split(d)\<close>: the pieces between the occurrences of \<open>d\<close>; never empty.\<close>
  "split_sep d [] = [[]]"
| "split_sep d (c # cs) =
     (if c = d then [] # split_sep d cs
      else (case split_sep d cs of [] \<Rightarrow> [[c]] | w # ws \<Rightarrow> (c # w) # ws))"

fun digits :: "nat \<Rightarrow> string" where
  \<comment> \<open>\<^verbatim>\<open>str(n)\<close> for a non-negative integer.\<close>
  "digits n =
     (if n < 10 then [char_of (48 + n)]
      else digits (n div 10) @ [char_of (48 + n mod 10)])"

declare digits.simps [simp del]

section \<open>Exceptions\<close>

text \<open>
  A raised exception is a value: its class and the text that \<^verbatim>\<open>str(e)\<close> gives
  (for an error of the operating system, the text without the file name). An
  exception that is raised while another one is handled, inside an
  \<^verbatim>\<open>except\<close> block, carries the handled exception as its \<^verbatim>\<open>__context__\<close>.
  Every function that can raise returns \<open>error + 'a\<close>, with \<open>Inl\<close> for the
  exception.
\<close>

datatype exc_class =
    ConnectionError | HTTPError | BadZipFile | ValueError
  | FileExistsError | FileNotFoundError | NotADirectoryError | IsADirectoryError
  | OSError | KeyError | NoDataError | ComputeError | Exception

datatype error =
    Error exc_class string
  | Chained exc_class string error

fun exc_class_of :: "error \<Rightarrow> exc_class" where
  \<comment> \<open>\<^verbatim>\<open>type(e)\<close>\<close>
  "exc_class_of (Error k m) = k"
| "exc_class_of (Chained k m c) = k"

fun str_error :: "error \<Rightarrow> string" where
  \<comment> \<open>\<^verbatim>\<open>str(e)\<close>\<close>
  "str_error (Error k m) = m"
| "str_error (Chained k m c) = m"

fun context_of :: "error \<Rightarrow> error option" where
  \<comment> \<open>\<^verbatim>\<open>e.__context__\<close>\<close>
  "context_of (Error k m) = None"
| "context_of (Chained k m c) = Some c"

section \<open>Paths\<close>

text \<open>
  A path is the list of its components below the root directory. The working
  directory of the process is the root, and there are no symbolic links.
  \<^verbatim>\<open>pathlib\<close> keeps a component \<^verbatim>\<open>..\<close> as it is, and so do \<open>Path\<close> and
  \<open>joinpath\<close>; the operating system would resolve it to the parent
  directory, which the file system below does not do: it is a model of the
  operations on paths without such a component.
\<close>

type_synonym path = "string list"

definition Path :: "string \<Rightarrow> path" where
  \<comment> \<open>\<^verbatim>\<open>Path(s)\<close>: split at the separator, drop empty components and \<^verbatim>\<open>.\<close>\<close>
  "Path s = filter (\<lambda>c. c \<noteq> [] \<and> c \<noteq> ''.'') (split_sep (CHR ''/'') s)"

definition joinpath :: "path \<Rightarrow> string \<Rightarrow> path" where
  \<comment> \<open>\<^verbatim>\<open>p / s\<close>: an absolute right operand replaces the left one.\<close>
  "joinpath p s = (if s \<noteq> [] \<and> hd s = CHR ''/'' then Path s else p @ Path s)"

section \<open>The file system\<close>

text \<open>
  The bytes of a file are either a well-formed zip archive, given by its
  members (name and content) in the order of the archive's directory, or other
  data. The file system is a tree: a node is a regular file or a directory,
  which is the list of its entries (name and node; the first entry of a name
  is the one that counts). Permissions and disk space are not modelled, and
  neither is the resolution of \<^verbatim>\<open>..\<close>: the operations look a component up
  by its name, which is what the operating system does for every component
  other than \<^verbatim>\<open>..\<close>.
\<close>

datatype content = Bytes string | ZipBytes "(string \<times> string) list"

datatype node = File content | Dir "(string \<times> node) list"

fun lookup :: "node \<Rightarrow> path \<Rightarrow> node option" where
  "lookup n [] = Some n"
| "lookup (File c) (x # xs) = None"
| "lookup (Dir es) (x # xs) = (case map_of es x of None \<Rightarrow> None | Some m \<Rightarrow> lookup m xs)"

definition path_exists :: "node \<Rightarrow> path \<Rightarrow> bool" where
  \<comment> \<open>\<^verbatim>\<open>Path.exists()\<close>\<close>
  "path_exists r p = (lookup r p \<noteq> None)"

fun isdir_node :: "node option \<Rightarrow> bool" where
  "isdir_node (Some (Dir f)) = True"
| "isdir_node _ = False"

fun isfile_node :: "node option \<Rightarrow> bool" where
  "isfile_node (Some (File c)) = True"
| "isfile_node _ = False"

definition is_dir :: "node \<Rightarrow> path \<Rightarrow> bool" where
  \<comment> \<open>\<^verbatim>\<open>Path.is_dir()\<close>\<close>
  "is_dir r p = isdir_node (lookup r p)"

definition is_file :: "node \<Rightarrow> path \<Rightarrow> bool" where
  \<comment> \<open>\<^verbatim>\<open>Path.is_file()\<close>\<close>
  "is_file r p = isfile_node (lookup r p)"

fun put :: "node \<Rightarrow> path \<Rightarrow> node option \<Rightarrow> node" where
  \<comment> \<open>Replace (or, with \<open>None\<close>, remove) the entry at a path whose parent is a directory.\<close>
  "put n [] v = (case v of None \<Rightarrow> n | Some m \<Rightarrow> m)"
| "put (File c) (x # xs) v = File c"
| "put (Dir es) [x] v =
     Dir (case v of None \<Rightarrow> AList.delete x es | Some m \<Rightarrow> AList.update x m es)"
| "put (Dir es) (x # y # ys) v =
     (case map_of es x of
        None \<Rightarrow> Dir es
      | Some m \<Rightarrow> Dir (AList.update x (put m (y # ys) v) es))"

definition blocked :: "node \<Rightarrow> path \<Rightarrow> bool" where
  \<comment> \<open>Some component on the way to the path (or the path itself) is a regular file.\<close>
  "blocked r p = list_ex (is_file r) (prefixes p)"

definition missing :: "node \<Rightarrow> path \<Rightarrow> error" where
  \<comment> \<open>The error of the operating system for a path that does not resolve.\<close>
  "missing r p =
     (if blocked r p then Error NotADirectoryError ''[Errno 20] Not a directory''
      else Error FileNotFoundError ''[Errno 2] No such file or directory'')"

fun makedirs :: "node \<Rightarrow> path \<Rightarrow> error + node" where
  \<comment> \<open>\<^verbatim>\<open>Path.mkdir(parents=True, exist_ok=True)\<close> and \<^verbatim>\<open>os.makedirs(p, exist_ok=True)\<close>\<close>
  "makedirs (Dir es) [] = Inr (Dir es)"
| "makedirs (File c) [] = Inl (Error FileExistsError ''[Errno 17] File exists'')"
| "makedirs (File c) (x # xs) = Inl (Error NotADirectoryError ''[Errno 20] Not a directory'')"
| "makedirs (Dir es) (x # xs) =
     (case makedirs (case map_of es x of None \<Rightarrow> Dir [] | Some m \<Rightarrow> m) xs of
        Inl e \<Rightarrow> Inl e
      | Inr m \<Rightarrow> Inr (Dir (AList.update x m es)))"

definition os_mkdir :: "node \<Rightarrow> path \<Rightarrow> error + node" where
  \<comment> \<open>\<^verbatim>\<open>os.mkdir(p)\<close>\<close>
  "os_mkdir r p =
     (if path_exists r p then Inl (Error FileExistsError ''[Errno 17] File exists'')
      else if is_dir r (butlast p) then Inr (put r p (Some (Dir [])))
      else Inl (missing r (butlast p)))"

definition open_write :: "node \<Rightarrow> path \<Rightarrow> content \<Rightarrow> error + node" where
  \<comment> \<open>\<^verbatim>\<open>open(p, 'wb')\<close> followed by writing the whole content: the file is created or replaced.\<close>
  "open_write r p c =
     (case lookup r p of
        Some (Dir f) \<Rightarrow> Inl (Error IsADirectoryError ''[Errno 21] Is a directory'')
      | Some (File old) \<Rightarrow> Inr (put r p (Some (File c)))
      | None \<Rightarrow>
          if is_dir r (butlast p) then Inr (put r p (Some (File c)))
          else Inl (missing r (butlast p)))"

definition unlink :: "node \<Rightarrow> path \<Rightarrow> error + node" where
  \<comment> \<open>\<^verbatim>\<open>Path.unlink()\<close>\<close>
  "unlink r p =
     (case lookup r p of
        None \<Rightarrow> Inl (missing r p)
      | Some (Dir f) \<Rightarrow> Inl (Error IsADirectoryError ''[Errno 21] Is a directory'')
      | Some (File c) \<Rightarrow> Inr (put r p None))"

definition rename :: "node \<Rightarrow> path \<Rightarrow> path \<Rightarrow> error + node" where
  \<comment> \<open>\<^verbatim>\<open>Path.rename(target)\<close> (POSIX \<^verbatim>\<open>rename\<close>): an existing target file is replaced.\<close>
  "rename r src dst =
     (case lookup r src of
        None \<Rightarrow> Inl (missing r src)
      | Some n \<Rightarrow>
          if src = [] \<or> dst = [] then Inl (Error OSError ''[Errno 16] Device or resource busy'')
          else if \<not> is_dir r (butlast dst) then Inl (missing r (butlast dst))
          else if src = dst then Inr r
          else if prefix src dst then Inl (Error OSError ''[Errno 22] Invalid argument'')
          else (case (n, lookup r dst) of
                  (File c, Some (Dir g)) \<Rightarrow>
                    Inl (Error IsADirectoryError ''[Errno 21] Is a directory'')
                | (Dir f, Some (File c)) \<Rightarrow>
                    Inl (Error NotADirectoryError ''[Errno 20] Not a directory'')
                | (Dir f, Some (Dir g)) \<Rightarrow>
                    if g = [] then Inr (put (put r src None) dst (Some n))
                    else Inl (Error OSError ''[Errno 39] Directory not empty'')
                | _ \<Rightarrow> Inr (put (put r src None) dst (Some n))))"

section \<open>Zip archives\<close>

text \<open>
  \<^verbatim>\<open>zipfile.ZipFile\<close>: \<^verbatim>\<open>namelist()\<close> gives the member names in archive order
  (with repetitions), a name is looked up in a dictionary in which a later
  member of the same name replaces an earlier one, and a member is extracted
  below the target directory after its name has lost every empty, \<^verbatim>\<open>.\<close> and
  \<^verbatim>\<open>..\<close> component.
\<close>

type_synonym members = "(string \<times> string) list"

definition ZipFile :: "node \<Rightarrow> path \<Rightarrow> error + members" where
  "ZipFile r p =
     (case lookup r p of
        None \<Rightarrow> Inl (missing r p)
      | Some (Dir f) \<Rightarrow> Inl (Error IsADirectoryError ''[Errno 21] Is a directory'')
      | Some (File (Bytes b)) \<Rightarrow> Inl (Error BadZipFile ''File is not a zip file'')
      | Some (File (ZipBytes ms)) \<Rightarrow> Inr ms)"

definition namelist :: "members \<Rightarrow> string list" where
  "namelist ms = map fst ms"

definition getinfo :: "members \<Rightarrow> string \<Rightarrow> string option" where
  "getinfo ms name = map_of (rev ms) name"

definition arcname :: "string \<Rightarrow> path" where
  "arcname name =
     filter (\<lambda>c. c \<noteq> [] \<and> c \<noteq> ''.'' \<and> c \<noteq> ''..'') (split_sep (CHR ''/'') name)"

definition extract_member :: "node \<Rightarrow> path \<Rightarrow> string \<Rightarrow> string \<Rightarrow> (error + unit) \<times> node" where
  "extract_member r dir name data =
     (let targetpath = dir @ arcname name;
          upperdirs = butlast targetpath
      in case (if path_exists r upperdirs then Inr r else makedirs r upperdirs) of
           Inl e \<Rightarrow> (Inl e, r)
         | Inr r1 \<Rightarrow>
             (case (if endswith name ''/''
                    then (if is_dir r1 targetpath then Inr r1 else os_mkdir r1 targetpath)
                    else open_write r1 targetpath (Bytes data)) of
                Inl e \<Rightarrow> (Inl e, r1)
              | Inr r2 \<Rightarrow> (Inr (), r2)))"

fun extract_names :: "node \<Rightarrow> path \<Rightarrow> members \<Rightarrow> string list \<Rightarrow> (error + unit) \<times> node" where
  "extract_names r dir ms [] = (Inr (), r)"
| "extract_names r dir ms (name # names) =
     (case getinfo ms name of
        None \<Rightarrow> (Inl (Error KeyError ''There is no item with that name in the archive''), r)
      | Some data \<Rightarrow>
          (case extract_member r dir name data of
             (Inl e, r1) \<Rightarrow> (Inl e, r1)
           | (Inr u, r1) \<Rightarrow> extract_names r1 dir ms names))"

definition extractall :: "node \<Rightarrow> path \<Rightarrow> members \<Rightarrow> (error + unit) \<times> node" where
  \<comment> \<open>\<^verbatim>\<open>zip_ref.extractall(dir)\<close>\<close>
  "extractall r dir ms = extract_names r dir ms (namelist ms)"

section \<open>The network\<close>

text \<open>
  A request fails in transport or is answered by a response, which has a
  status code, a reason phrase, its own URL (\<^verbatim>\<open>response.url\<close>: the URL as
  \<^verbatim>\<open>requests\<close> has prepared it, percent-encoded, and after redirections) and
  a body.
\<close>

datatype http_result =
    Unreachable string
  | Reply nat string string content

definition raise_for_status :: "nat \<Rightarrow> string \<Rightarrow> string \<Rightarrow> error + unit" where
  \<comment> \<open>\<^verbatim>\<open>response.raise_for_status()\<close>, from the status code, reason phrase and URL of the response.\<close>
  "raise_for_status status reason url =
     (if 400 \<le> status \<and> status < 500
      then Inl (Error HTTPError (digits status @ '' Client Error: '' @ reason @ '' for url: '' @ url))
      else if 500 \<le> status \<and> status < 600
      then Inl (Error HTTPError (digits status @ '' Server Error: '' @ reason @ '' for url: '' @ url))
      else Inr ())"

section \<open>The state of the world\<close>

text \<open>
  The program acts on the file system (given by its root), the home directory
  of the user, and the remote server, which answers a GET for a URL; every
  request that is issued is recorded in \<open>requests\<close>.
\<close>

record world =
  fs :: node
  home :: path
  server :: "string \<Rightarrow> http_result"
  requests :: "string list"

definition requests_get :: "world \<Rightarrow> string \<Rightarrow> http_result \<times> world" where
  \<comment> \<open>\<^verbatim>\<open>requests.get(url, stream=True)\<close>\<close>
  "requests_get w url = (server w url, w\<lparr>requests := requests w @ [url]\<rparr>)"

section \<open>Reading delimited text\<close>

text \<open>
  \<^verbatim>\<open>polars.read_csv(path, separator=d)\<close> on plain text: lines that end in a
  line feed, fields without quotes, column names without repetition, and at
  least one character of data. The first line names the columns, every
  further line is a row; a row with fewer fields than columns is filled with
  empty (null) fields, a row with more fields is an error, and so is an empty
  file. A table is the list of its column names and the list of its rows.
  What \<^verbatim>\<open>polars\<close> does with quotes, carriage returns, repeated names and
  files of empty lines is outside this model.
\<close>

type_synonym dataframe = "string list \<times> string list list"

definition splitlines :: "string \<Rightarrow> string list" where
  "splitlines s =
     (let ls = split_sep (CHR 0x0A) s in if last ls = [] then butlast ls else ls)"

definition pad_row :: "nat \<Rightarrow> string list \<Rightarrow> string list" where
  "pad_row n row = row @ replicate (n - length row) []"

definition parse_csv :: "char \<Rightarrow> string \<Rightarrow> error + dataframe" where
  "parse_csv d s =
     (case splitlines s of
        [] \<Rightarrow> Inl (Error NoDataError ''empty CSV'')
      | h # ls \<Rightarrow>
          (let columns = split_sep d h; rows = map (split_sep d) ls
           in if list_ex (\<lambda>row. length columns < length row) rows
              then Inl (Error ComputeError ''found more fields than defined in schema'')
              else Inr (columns, map (pad_row (length columns)) rows)))"

definition read_csv :: "node \<Rightarrow> path \<Rightarrow> char \<Rightarrow> error + dataframe" where
  "read_csv r p d =
     (case lookup r p of
        None \<Rightarrow> Inl (missing r p)
      | Some (Dir f) \<Rightarrow> Inl (Error IsADirectoryError ''[Errno 21] Is a directory'')
      | Some (File (ZipBytes ms)) \<Rightarrow> Inl (Error ComputeError ''invalid utf-8 sequence'')
      | Some (File (Bytes b)) \<Rightarrow> parse_csv d b)"

section \<open>The program\<close>

subsection \<open>\<^verbatim>\<open>get_cache_dir\<close>\<close>

text \<open>
  The truth value of an \<^verbatim>\<open>Optional[str]\<close> decides between the custom and the
  default directory: \<^verbatim>\<open>None\<close> and the empty string are both false.
\<close>

definition cache_dir_of :: "world \<Rightarrow> string option \<Rightarrow> path" where
  \<comment> \<open>\<^verbatim>\<open>Path(custom_cache_dir) if custom_cache_dir else Path.home() / ".statscan_cache"\<close>\<close>
  "cache_dir_of w custom_cache_dir =
     (case custom_cache_dir of
        None \<Rightarrow> joinpath (home w) ''.statscan_cache''
      | Some s \<Rightarrow> if s = [] then joinpath (home w) ''.statscan_cache'' else Path s)"

definition get_cache_dir :: "world \<Rightarrow> string option \<Rightarrow> (error + path) \<times> world" where
  "get_cache_dir w custom_cache_dir =
     (let cache_dir = cache_dir_of w custom_cache_dir
      in case makedirs (fs w) cache_dir of
           Inl e \<Rightarrow> (Inl e, w)
         | Inr r \<Rightarrow> (Inr cache_dir, w\<lparr>fs := r\<rparr>))"

subsection \<open>\<^verbatim>\<open>get_table_url\<close>\<close>

definition base_url :: string where
  "base_url = ''https://www150.statcan.gc.ca/n1/tbl/csv/''"

definition clean_id :: "string \<Rightarrow> string" where
  "clean_id table_id = py_replace_del (CHR '' '') (py_replace_del (CHR ''-'') table_id)"

definition get_table_url :: "string \<Rightarrow> string \<Rightarrow> string" where
  "get_table_url table_id language =
     base_url @ clean_id table_id @ ''-'' @ language @ ''.zip''"

subsection \<open>\<^verbatim>\<open>download_table\<close>\<close>

definition zip_path_of :: "path \<Rightarrow> string \<Rightarrow> string \<Rightarrow> path" where
  "zip_path_of cache_path table_id language =
     joinpath cache_path (table_id @ ''-'' @ language @ ''.zip'')"

definition table_dir_of :: "path \<Rightarrow> string \<Rightarrow> string \<Rightarrow> path" where
  "table_dir_of cache_path table_id language =
     joinpath cache_path (table_id @ ''-'' @ language)"

definition csv_path_of :: "path \<Rightarrow> string \<Rightarrow> string \<Rightarrow> path" where
  "csv_path_of cache_path table_id language =
     joinpath (table_dir_of cache_path table_id language) (table_id @ ''-'' @ language @ ''.csv'')"

fun find_csv :: "string list \<Rightarrow> string option" where
  \<comment> \<open>The loop over \<^verbatim>\<open>zip_ref.namelist()\<close> that stops at the first match.\<close>
  "find_csv [] = None"
| "find_csv (filename # rest) =
     (if endswith (lower filename) ''.csv'' then Some filename else find_csv rest)"

definition no_csv_error :: "string \<Rightarrow> error" where
  "no_csv_error table_id =
     Error ValueError (''No CSV file found in the zip file for table '' @ table_id)"

definition move_csv :: "node \<Rightarrow> string \<Rightarrow> path \<Rightarrow> path \<Rightarrow> members \<Rightarrow> (error + unit) \<times> node" where
  \<comment> \<open>The search for the CSV member and its renaming, after the extraction.\<close>
  "move_csv r table_id table_dir csv_path ms =
     (case find_csv (namelist ms) of
        None \<Rightarrow> (Inl (no_csv_error table_id), r)
      | Some csv_filename \<Rightarrow>
          if csv_filename = [] then (Inl (no_csv_error table_id), r)
          else
            (let extracted_path = joinpath table_dir csv_filename
             in if extracted_path \<noteq> csv_path
                then (case rename r extracted_path csv_path of
                        Inl e \<Rightarrow> (Inl e, r)
                      | Inr r1 \<Rightarrow> (Inr (), r1))
                else (Inr (), r)))"

definition unpack :: "node \<Rightarrow> string \<Rightarrow> path \<Rightarrow> path \<Rightarrow> path \<Rightarrow> (error + unit) \<times> node" where
  \<comment> \<open>The \<^verbatim>\<open>with zipfile.ZipFile(zip_path)\<close> block.\<close>
  "unpack r table_id zip_path table_dir csv_path =
     (case ZipFile r zip_path of
        Inl e \<Rightarrow> (Inl e, r)
      | Inr ms \<Rightarrow>
          (case extractall r table_dir ms of
             (Inl e, r1) \<Rightarrow> (Inl e, r1)
           | (Inr u, r1) \<Rightarrow> move_csv r1 table_id table_dir csv_path ms))"

definition fetch :: "world \<Rightarrow> string \<Rightarrow> string \<Rightarrow> path \<Rightarrow> path \<Rightarrow> path \<Rightarrow> (error + path) \<times> world" where
  \<comment> \<open>The cache miss: everything after the test for the cached CSV file.\<close>
  "fetch w table_id language zip_path table_dir csv_path =
     (case makedirs (fs w) table_dir of
        Inl e \<Rightarrow> (Inl e, w)
      | Inr r1 \<Rightarrow>
          (let url = get_table_url table_id language;
               (response, w2) = requests_get (w\<lparr>fs := r1\<rparr>) url
           in case response of
                Unreachable msg \<Rightarrow> (Inl (Error ConnectionError msg), w2)
              | Reply status reason response_url body \<Rightarrow>
                  (case raise_for_status status reason response_url of
                     Inl e \<Rightarrow> (Inl e, w2)
                   | Inr u \<Rightarrow>
                       (case open_write (fs w2) zip_path body of
                          Inl e \<Rightarrow> (Inl e, w2)
                        | Inr r3 \<Rightarrow>
                            (case unpack r3 table_id zip_path table_dir csv_path of
                               (Inl e, r4) \<Rightarrow> (Inl e, w2\<lparr>fs := r4\<rparr>)
                             | (Inr u, r4) \<Rightarrow>
                                 (case unlink r4 zip_path of
                                    Inl e \<Rightarrow> (Inl e, w2\<lparr>fs := r4\<rparr>)
                                  | Inr r5 \<Rightarrow> (Inr csv_path, w2\<lparr>fs := r5\<rparr>)))))))"

definition download_table ::
  "world \<Rightarrow> string \<Rightarrow> string option \<Rightarrow> string \<Rightarrow> (error + path) \<times> world" where
  "download_table w table_id cache_dir language =
     (case get_cache_dir w cache_dir of
        (Inl e, w1) \<Rightarrow> (Inl e, w1)
      | (Inr cache_path, w1) \<Rightarrow>
          (let zip_path = zip_path_of cache_path table_id language;
               table_dir = table_dir_of cache_path table_id language;
               csv_path = csv_path_of cache_path table_id language
           in if path_exists (fs w1) csv_path then (Inr csv_path, w1)
              else fetch w1 table_id language zip_path table_dir csv_path))"

subsection \<open>\<^verbatim>\<open>get_table\<close>\<close>

definition delimiter_of :: "string \<Rightarrow> char" where
  "delimiter_of language = (if language = ''fra'' then CHR '';'' else CHR '','')"

definition wrap_error :: "string \<Rightarrow> error \<Rightarrow> error" where
  \<comment> \<open>\<^verbatim>\<open>Exception(f"Error fetching table {table_id}: {str(e)}")\<close>, raised inside \<^verbatim>\<open>except Exception as e\<close>\<close>
  "wrap_error table_id e =
     Chained Exception (''Error fetching table '' @ table_id @ '': '' @ str_error e) e"

definition get_table ::
  "world \<Rightarrow> string \<Rightarrow> string option \<Rightarrow> string \<Rightarrow> (error + dataframe) \<times> world" where
  "get_table w table_id cache_dir language =
     (case download_table w table_id cache_dir language of
        (Inl e, w1) \<Rightarrow> (Inl (wrap_error table_id e), w1)
      | (Inr csv_path, w1) \<Rightarrow>
          (let delimiter = delimiter_of language
           in case read_csv (fs w1) csv_path delimiter of
                Inl e \<Rightarrow> (Inl (wrap_error table_id e), w1)
              | Inr df \<Rightarrow> (Inr df, w1)))"

section \<open>Notions used in the statements\<close>

text \<open>
  Removing the separators from an identifier, written as one pass over the
  string; names without a directory separator; names that are a single path
  component; the name of a cache entry; the tree that results from writing
  the named members of an archive into a directory; the names in a directory;
  and the conditions under which a cache miss runs up to the search for the
  CSV member: identifier and language are plain, the CSV file is not cached,
  nothing but a directory is in the place of the entry directory, no directory
  is in the place of the archive or of a member, and the server answers
  without an error status with an archive whose members have simple names.
\<close>

definition strip_separators :: "string \<Rightarrow> string" where
  "strip_separators s = filter (\<lambda>c. c \<noteq> CHR ''-'' \<and> c \<noteq> CHR '' '') s"

definition plain :: "string \<Rightarrow> bool" where
  "plain s = (CHR ''/'' \<notin> set s)"

definition simple_name :: "string \<Rightarrow> bool" where
  "simple_name s = (CHR ''/'' \<notin> set s \<and> s \<noteq> [] \<and> s \<noteq> ''.'' \<and> s \<noteq> ''..'')"

definition valid_path :: "path \<Rightarrow> bool" where
  \<comment> \<open>Every component is a simple name: in particular none is \<^verbatim>\<open>..\<close>.\<close>
  "valid_path p = list_all simple_name p"

definition entry_name :: "string \<Rightarrow> string \<Rightarrow> string" where
  "entry_name table_id language = table_id @ ''-'' @ language"

fun extracted :: "node \<Rightarrow> path \<Rightarrow> members \<Rightarrow> string list \<Rightarrow> node" where
  "extracted r dir ms [] = r"
| "extracted r dir ms (name # names) =
     extracted (case getinfo ms name of
                  None \<Rightarrow> r
                | Some data \<Rightarrow> put r (dir @ [name]) (Some (File (Bytes data)))) dir ms names"


definition listdir :: "node \<Rightarrow> path \<Rightarrow> string list" where
  \<comment> \<open>\<^verbatim>\<open>os.listdir(p)\<close>\<close>
  "listdir r p = (case lookup r p of Some (Dir es) \<Rightarrow> remdups (map fst es) | _ \<Rightarrow> [])"

definition fetchable :: "world \<Rightarrow> path \<Rightarrow> string \<Rightarrow> string \<Rightarrow> members \<Rightarrow> bool" where
  "fetchable w cache_path table_id language ms =
     (plain table_id \<and> plain language \<and>
      \<not> path_exists (fs w) (csv_path_of cache_path table_id language) \<and>
      \<not> is_file (fs w) (table_dir_of cache_path table_id language) \<and>
      \<not> is_dir (fs w) (zip_path_of cache_path table_id language) \<and>
      (\<exists>status reason response_url.
          server w (get_table_url table_id language) =
            Reply status reason response_url (ZipBytes ms) \<and>
          \<not> (400 \<le> status \<and> status < 600)) \<and>
      list_all (\<lambda>name. simple_name name \<and>
          \<not> is_dir (fs w) (table_dir_of cache_path table_id language @ [name])) (namelist ms))"

definition simple_archives :: "world \<Rightarrow> string \<Rightarrow> bool" where
  \<comment> \<open>If the server answers the URL with an archive, its members have simple names.\<close>
  "simple_archives w url =
     (case server w url of
        Reply status reason response_url (ZipBytes ms) \<Rightarrow> list_all simple_name (namelist ms)
      | _ \<Rightarrow> True)"

section \<open>Example worlds\<close>

text \<open>
  A server that holds table 14100287 in English (the data file and a metadata
  file) and an archive without any CSV member, and answers 404 otherwise; a
  world with an empty cache directory; a world whose cache holds a file with
  semicolons under both language tags; a world with a regular file in the
  place of the cache directory; and a world whose cached file is empty.
\<close>

definition newline :: char where
  "newline = CHR 0x0A"

definition example_csv :: string where
  "example_csv =
     ''REF_DATE,GEO,VALUE'' @ [newline] @ ''2020-01,Canada,100'' @ [newline] @
     ''2020-02,Canada,101'' @ [newline]"

definition example_archive :: members where
  "example_archive = [(''14100287.csv'', example_csv), (''14100287_MetaData.csv'', ''meta'')]"

definition example_server :: "string \<Rightarrow> http_result" where
  "example_server url =
     (if url = ''https://www150.statcan.gc.ca/n1/tbl/csv/14100287-eng.zip''
      then Reply 200 ''OK'' url (ZipBytes example_archive)
      else if url = ''https://www150.statcan.gc.ca/n1/tbl/csv/99100001-eng.zip''
      then Reply 200 ''OK'' url (ZipBytes [(''readme.txt'', ''no data'')])
      else Reply 404 ''Not Found'' url (Bytes []))"

definition example_world :: world where
  "example_world =
     \<lparr>fs = Dir [(''tmp'', Dir [(''cache'', Dir [])])], home = [''home'', ''user''],
      server = example_server, requests = []\<rparr>"

definition semicolon_csv :: string where
  "semicolon_csv = ''REF_DATE;GEO;VALUE'' @ [newline] @ ''2020-01;Canada;100'' @ [newline]"

definition semicolon_world :: world where
  "semicolon_world =
     \<lparr>fs = Dir [(''tmp'', Dir [(''cache'', Dir
        [(''14-10-0287-fra'', Dir [(''14-10-0287-fra.csv'', File (Bytes semicolon_csv))]),
         (''14-10-0287-eng'', Dir [(''14-10-0287-eng.csv'', File (Bytes semicolon_csv))])])])],
      home = [''home'', ''user''], server = example_server, requests = []\<rparr>"

definition blocked_world :: world where
  \<comment> \<open>A regular file is in the place of the cache directory.\<close>
  "blocked_world =
     \<lparr>fs = Dir [(''tmp'', Dir [(''cache'', File (Bytes ''not a directory''))])],
      home = [''home'', ''user''], server = example_server, requests = []\<rparr>"

definition empty_csv_world :: world where
  \<comment> \<open>The cached file of table 14-10-0287 is empty.\<close>
  "empty_csv_world =
     \<lparr>fs = Dir [(''tmp'', Dir [(''cache'', Dir
        [(''14-10-0287-eng'', Dir [(''14-10-0287-eng.csv'', File (Bytes []))])])])],
      home = [''home'', ''user''], server = example_server, requests = []\<rparr>"

definition absolute_member_server :: "string \<Rightarrow> http_result" where
  \<comment> \<open>Every archive has the one member \<^verbatim>\<open>/14100287.csv\<close>, named by an absolute path.\<close>
  "absolute_member_server url = Reply 200 ''OK'' url (ZipBytes [(''/14100287.csv'', example_csv)])"

definition absolute_member_world :: world where
  "absolute_member_world =
     \<lparr>fs = Dir [(''tmp'', Dir [(''cache'', Dir [])])], home = [''home'', ''user''],
      server = absolute_member_server, requests = []\<rparr>"

section \<open>Lemmas about the file system\<close>

lemma lookup_append:
  "lookup r (p @ q) = (case lookup r p of None \<Rightarrow> None | Some n \<Rightarrow> lookup n q)"
proof (induction p arbitrary: r)
  case Nil
  then show ?case by simp
next
  case (Cons x p)
  then show ?case by (cases r) (auto split: option.splits)
qed

lemma lookup_snoc:
  "lookup r (p @ [x]) =
     (case lookup r p of Some (Dir es) \<Rightarrow> map_of es x | _ \<Rightarrow> None)"
  by (auto simp: lookup_append split: option.splits node.splits)

lemma is_dir_prefix: "is_dir r (p @ q) \<Longrightarrow> is_dir r p"
proof (cases "lookup r p")
  case None
  then show "is_dir r (p @ q) \<Longrightarrow> is_dir r p" by (simp add: is_dir_def lookup_append)
next
  case (Some a)
  then show "is_dir r (p @ q) \<Longrightarrow> is_dir r p"
    by (cases a; cases q) (auto simp: is_dir_def lookup_append)
qed

lemma exists_parent_is_dir: "lookup r (p @ [x]) = Some n \<Longrightarrow> is_dir r p"
  by (auto simp: lookup_snoc is_dir_def split: option.splits node.splits)

lemma lookup_put_other:
  "\<not> prefix p q \<Longrightarrow> \<not> prefix q p \<Longrightarrow> lookup (put r p v) q = lookup r q"
proof (induction r p v arbitrary: q rule: put.induct)
  case (1 n v)
  then show ?case by simp
next
  case (2 c x xs v)
  then show ?case by simp
next
  case (3 es x v)
  then show ?case
    by (cases q) (auto simp: update_conv' delete_conv' split: option.splits)
next
  case (4 es x y ys v)
  then show ?case
    by (cases q) (auto simp: update_conv' split: option.splits)
qed

lemma put_Cons_Dir:
  "xs \<noteq> [] \<Longrightarrow> put (Dir es) (x # xs) v =
     (case map_of es x of None \<Rightarrow> Dir es | Some m \<Rightarrow> Dir (AList.update x (put m xs v) es))"
  by (cases xs) auto

lemma lookup_put_same:
  "is_dir r p \<Longrightarrow> lookup (put r (p @ [x]) v) (p @ [x]) = v"
proof (induction p arbitrary: r)
  case Nil
  then show ?case
    by (cases r) (auto simp: is_dir_def update_conv' delete_conv' split: option.splits)
next
  case (Cons a p)
  from Cons.prems obtain es m where r: "r = Dir es" and m: "map_of es a = Some m" and d: "is_dir m p"
    by (cases r) (auto simp: is_dir_def split: option.splits)
  show ?case using Cons.IH [OF d] by (simp add: r m put_Cons_Dir update_conv')
qed

lemma lookup_put_above:
  "strict_prefix q p \<Longrightarrow>
     isdir_node (lookup (put r p v) q) = isdir_node (lookup r q) \<and>
     (lookup (put r p v) q = None \<longleftrightarrow> lookup r q = None) \<and>
     (\<forall>c. lookup (put r p v) q = Some (File c) \<longleftrightarrow> lookup r q = Some (File c))"
proof (induction r p v arbitrary: q rule: put.induct)
  case (1 n v)
  then show ?case by simp
next
  case (2 c x xs v)
  then show ?case by simp
next
  case (3 es x v)
  then have "q = []" by (cases q) auto
  then show ?case by simp
next
  case (4 es x y ys v)
  show ?case
  proof (cases q)
    case Nil
    then show ?thesis by (simp split: option.splits)
  next
    case (Cons a q')
    with 4 show ?thesis by (auto simp: update_conv' split: option.splits)
  qed
qed

lemma is_dir_put_above:
  "strict_prefix q p \<Longrightarrow> is_dir (put r p v) q = is_dir r q"
  by (simp add: is_dir_def lookup_put_above)

lemma makedirs_is_dir: "is_dir r p \<Longrightarrow> makedirs r p = Inr r"
proof (induction p arbitrary: r)
  case Nil
  then show ?case by (cases r) (auto simp: is_dir_def)
next
  case (Cons a p)
  from Cons.prems obtain es m where r: "r = Dir es" and m: "map_of es a = Some m" and d: "is_dir m p"
    by (cases r) (auto simp: is_dir_def split: option.splits)
  show ?case using Cons.IH [OF d] by (simp add: r m update_triv)
qed

lemma makedirs_post: "makedirs r p = Inr r' \<Longrightarrow> is_dir r' p"
proof (induction p arbitrary: r r')
  case Nil
  then show ?case by (cases r) (auto simp: is_dir_def)
next
  case (Cons a p)
  then show ?case
    by (cases r) (auto simp: is_dir_def update_conv' split: sum.splits option.splits)
qed

lemma makedirs_frame:
  "makedirs r p = Inr r' \<Longrightarrow> \<not> prefix q p \<Longrightarrow> lookup r' q = lookup r q"
proof (induction p arbitrary: r r' q)
  case Nil
  then show ?case by (cases r) auto
next
  case (Cons a p)
  show ?case
  proof (cases r)
    case (File c)
    with Cons.prems show ?thesis by simp
  next
    case (Dir es)
    show ?thesis
    proof (cases q)
      case Nil
      with Cons.prems show ?thesis by simp
    next
      case q: (Cons b q')
      from Cons.prems(1) Dir obtain m where
        m: "makedirs (case map_of es a of None \<Rightarrow> Dir [] | Some m \<Rightarrow> m) p = Inr m"
        and r': "r' = Dir (AList.update a m es)"
        by (auto split: sum.splits)
      show ?thesis
      proof (cases "b = a")
        case True
        with Cons.prems(2) q have np: "\<not> prefix q' p" by simp
        from Cons.IH [OF m np] np show ?thesis
          by (cases q') (auto simp: Dir q r' True update_conv' split: option.splits)
      next
        case False
        then show ?thesis by (simp add: Dir q r' update_conv')
      qed
    qed
  qed
qed

lemma makedirs_above:
  "makedirs r p = Inr r' \<Longrightarrow> prefix q p \<Longrightarrow> is_dir r' q"
  using makedirs_post [of r p r'] is_dir_prefix [of r' q] by (auto simp: prefix_def)

lemma makedirs_blocked:
  "(\<exists>e. makedirs r p = Inl e) \<longleftrightarrow> blocked r p"
proof (induction p arbitrary: r)
  case Nil
  then show ?case by (cases r) (auto simp: blocked_def is_file_def)
next
  case (Cons a p)
  show ?case
  proof (cases r)
    case (File c)
    then show ?thesis by (simp add: blocked_def is_file_def)
  next
    case (Dir es)
    show ?thesis
    proof (cases "map_of es a")
      case None
      have "\<not> blocked (Dir []) p" by (cases p) (auto simp: blocked_def is_file_def list_ex_iff)
      with Cons.IH [of "Dir []"] show ?thesis
        by (auto simp: Dir None blocked_def is_file_def list_ex_iff split: sum.splits)
    next
      case (Some m)
      with Cons.IH [of m] show ?thesis
        by (auto simp: Dir Some blocked_def is_file_def list_ex_iff split: sum.splits)
    qed
  qed
qed

lemma makedirs_snoc:
  "is_dir r p \<Longrightarrow> makedirs r (p @ [x]) =
     (case lookup r (p @ [x]) of
        None \<Rightarrow> Inr (put r (p @ [x]) (Some (Dir [])))
      | Some (Dir es) \<Rightarrow> Inr r
      | Some (File c) \<Rightarrow> Inl (Error FileExistsError ''[Errno 17] File exists''))"
proof (induction p arbitrary: r)
  case Nil
  then show ?case
    by (cases r) (auto simp: is_dir_def update_triv split: option.splits node.splits)
next
  case (Cons a p)
  from Cons.prems obtain es m where r: "r = Dir es" and m: "map_of es a = Some m" and d: "is_dir m p"
    by (cases r) (auto simp: is_dir_def split: option.splits)
  show ?case using Cons.IH [OF d]
    by (auto simp add: r m put_Cons_Dir update_triv split: option.splits node.splits)
qed

section \<open>Lemmas about names, archives and the fetch\<close>

lemma clean_id_strip: "clean_id s = strip_separators s"
  by (induction s) (auto simp: clean_id_def py_replace_del_def strip_separators_def)

lemma split_sep_plain: "d \<notin> set s \<Longrightarrow> split_sep d s = [s]"
  by (induction s) auto

lemma Path_simple: "simple_name s \<Longrightarrow> Path s = [s]"
  by (simp add: Path_def simple_name_def split_sep_plain)

lemma joinpath_simple: "simple_name s \<Longrightarrow> joinpath p s = p @ [s]"
  by (cases s) (auto simp: joinpath_def Path_simple simple_name_def)

lemma arcname_simple: "simple_name s \<Longrightarrow> arcname s = [s]"
  by (simp add: arcname_def simple_name_def split_sep_plain)

lemma endswith_single: "endswith s [c] \<Longrightarrow> c \<in> set s"
  by (cases "rev s") (auto simp: endswith_def dest: arg_cong [where f = set])

lemma simple_not_dir_member: "simple_name s \<Longrightarrow> \<not> endswith s ''/''"
  using endswith_single [of s "CHR ''/''"] by (auto simp: simple_name_def)

lemma simple_entry:
  "plain t \<Longrightarrow> plain l \<Longrightarrow> plain ext \<Longrightarrow> simple_name (t @ ''-'' @ l @ ext)"
  by (cases t; cases "tl t") (auto simp: plain_def simple_name_def)

lemma paths_plain:
  assumes "plain t" "plain l"
  shows "zip_path_of cp t l = cp @ [entry_name t l @ ''.zip'']"
    and "table_dir_of cp t l = cp @ [entry_name t l]"
    and "csv_path_of cp t l = cp @ [entry_name t l, entry_name t l @ ''.csv'']"
  using simple_entry [OF assms, of "''.zip''"] simple_entry [OF assms, of "[]"]
    simple_entry [OF assms, of "''.csv''"]
  by (simp_all add: zip_path_of_def table_dir_of_def csv_path_of_def entry_name_def
      joinpath_simple plain_def)

lemma open_write_snoc:
  "is_dir r p \<Longrightarrow> open_write r (p @ [x]) c =
     (if is_dir r (p @ [x]) then Inl (Error IsADirectoryError ''[Errno 21] Is a directory'')
      else Inr (put r (p @ [x]) (Some (File c))))"
  by (auto simp: open_write_def is_dir_def split: option.splits node.splits)

lemma extract_member_simple:
  "simple_name name \<Longrightarrow> is_dir r dir \<Longrightarrow> extract_member r dir name data =
     (if is_dir r (dir @ [name])
      then (Inl (Error IsADirectoryError ''[Errno 21] Is a directory''), r)
      else (Inr (), put r (dir @ [name]) (Some (File (Bytes data)))))"
  by (auto simp: extract_member_def arcname_simple simple_not_dir_member open_write_snoc
      path_exists_def is_dir_def split: option.splits)

lemma is_dir_put_file_sibling:
  "is_dir r dir \<Longrightarrow>
   is_dir (put r (dir @ [x]) (Some (File c))) (dir @ [y]) = (x \<noteq> y \<and> is_dir r (dir @ [y]))"
proof (cases "x = y")
  case True
  assume "is_dir r dir"
  then show ?thesis using True by (simp add: is_dir_def lookup_put_same)
next
  case False
  then have "lookup (put r (dir @ [x]) (Some (File c))) (dir @ [y]) = lookup r (dir @ [y])"
    by (intro lookup_put_other) auto
  with False show ?thesis by (simp add: is_dir_def)
qed

lemma is_dir_put_parent: "is_dir (put r (dir @ [x]) v) dir = is_dir r dir"
  by (rule is_dir_put_above) (simp add: strict_prefix_def)

lemma extract_names_ok:
  assumes "is_dir r dir"
    and "\<forall>n\<in>set names. simple_name n \<and> getinfo ms n \<noteq> None \<and> \<not> is_dir r (dir @ [n])"
  shows "extract_names r dir ms names = (Inr (), extracted r dir ms names)"
  using assms
proof (induction names arbitrary: r)
  case Nil
  then show ?case by simp
next
  case (Cons n names)
  from Cons.prems obtain d where d: "getinfo ms n = Some d" by auto
  let ?r1 = "put r (dir @ [n]) (Some (File (Bytes d)))"
  have step: "extract_member r dir n d = (Inr (), ?r1)"
    using Cons.prems by (simp add: extract_member_simple)
  have dir1: "is_dir ?r1 dir" using Cons.prems(1) by (simp add: is_dir_put_parent)
  have rest: "\<forall>k\<in>set names. simple_name k \<and> getinfo ms k \<noteq> None \<and> \<not> is_dir ?r1 (dir @ [k])"
    using Cons.prems by (simp add: is_dir_put_file_sibling)
  show ?case using Cons.IH [OF dir1 rest] by (simp add: d step)
qed

lemma extract_names_inv:
  assumes "extract_names r dir ms names = (Inr u, r')"
    and "is_dir r dir"
    and "\<forall>n\<in>set names. simple_name n"
  shows "r' = extracted r dir ms names \<and>
         (\<forall>n\<in>set names. getinfo ms n \<noteq> None \<and> \<not> is_dir r (dir @ [n]))"
  using assms
proof (induction names arbitrary: r)
  case Nil
  then show ?case by simp
next
  case (Cons n names)
  from Cons.prems(1) obtain d where d: "getinfo ms n = Some d"
    by (auto split: option.splits)
  let ?r1 = "put r (dir @ [n]) (Some (File (Bytes d)))"
  have nd: "\<not> is_dir r (dir @ [n])"
    using Cons.prems by (auto simp: d extract_member_simple split: if_splits)
  then have step: "extract_member r dir n d = (Inr (), ?r1)"
    using Cons.prems by (simp add: extract_member_simple)
  have dir1: "is_dir ?r1 dir" using Cons.prems(2) by (simp add: is_dir_put_parent)
  have run: "extract_names ?r1 dir ms names = (Inr u, r')"
    using Cons.prems(1) by (simp add: d step)
  have simple: "\<forall>k\<in>set names. simple_name k" using Cons.prems(3) by simp
  from Cons.IH [OF run dir1 simple]
  have r': "r' = extracted ?r1 dir ms names"
    and rest: "\<forall>k\<in>set names. getinfo ms k \<noteq> None \<and> \<not> is_dir ?r1 (dir @ [k])"
    by auto
  have "\<forall>k\<in>set names. \<not> is_dir r (dir @ [k])"
    using rest nd Cons.prems(2) by (auto simp: is_dir_put_file_sibling)
  then show ?case using r' rest nd d by simp
qed

lemma extracted_is_dir: "is_dir r dir \<Longrightarrow> is_dir (extracted r dir ms names) dir"
  by (induction names arbitrary: r) (auto simp: is_dir_put_parent split: option.splits)

lemma extracted_other:
  "\<not> prefix dir q \<Longrightarrow> \<not> prefix q dir \<Longrightarrow> lookup (extracted r dir ms names) q = lookup r q"
proof (induction names arbitrary: r)
  case Nil
  then show ?case by simp
next
  case (Cons n names)
  have "lookup (put r (dir @ [n]) v) q = lookup r q" for v
    using Cons.prems by (intro lookup_put_other) (auto dest: append_prefixD)
  then show ?case using Cons by (simp split: option.splits)
qed

lemma extracted_unnamed:
  "x \<notin> set names \<Longrightarrow> lookup (extracted r dir ms names) (dir @ x # s) = lookup r (dir @ x # s)"
proof (induction names arbitrary: r)
  case Nil
  then show ?case by simp
next
  case (Cons n names)
  have "lookup (put r (dir @ [n]) v) (dir @ x # s) = lookup r (dir @ x # s)" for v
    using Cons.prems by (intro lookup_put_other) auto
  then show ?case using Cons by (simp split: option.splits)
qed

lemma extracted_named:
  "is_dir r dir \<Longrightarrow> n \<in> set names \<Longrightarrow> getinfo ms n = Some d \<Longrightarrow>
     lookup (extracted r dir ms names) (dir @ [n]) = Some (File (Bytes d))"
proof (induction names arbitrary: r)
  case Nil
  then show ?case by simp
next
  case (Cons k names)
  show ?case
  proof (cases "n \<in> set names")
    case True
    show ?thesis
      using Cons.IH [OF _ True Cons.prems(3)] Cons.prems(1)
      by (simp add: is_dir_put_parent split: option.splits)
  next
    case False
    with Cons.prems have k: "k = n" by simp
    show ?thesis
      using False Cons.prems extracted_unnamed [of n names _ dir ms "[]"]
      by (simp add: k lookup_put_same)
  qed
qed

lemma getinfo_namelist: "n \<in> set (namelist ms) \<Longrightarrow> \<exists>d. getinfo ms n = Some d"
  by (cases "getinfo ms n") (auto simp: getinfo_def namelist_def map_of_eq_None_iff)

lemma find_csv_Some:
  "find_csv names = Some f \<Longrightarrow>
     f \<in> set names \<and> endswith (lower f) ''.csv'' \<and>
     (\<exists>pre post. names = pre @ f # post \<and> (\<forall>n\<in>set pre. \<not> endswith (lower n) ''.csv''))"
proof (induction names)
  case Nil
  then show ?case by simp
next
  case (Cons a names)
  show ?case
  proof (cases "endswith (lower a) ''.csv''")
    case True
    with Cons.prems have "a = f" by simp
    then have "a # names = [] @ f # names \<and> (\<forall>n\<in>set []. \<not> endswith (lower n) ''.csv'')"
      by simp
    with True \<open>a = f\<close> show ?thesis by (metis list.set_intros(1))
  next
    case False
    with Cons obtain pre post where
      "f \<in> set names" "endswith (lower f) ''.csv''" "names = pre @ f # post"
      "\<forall>n\<in>set pre. \<not> endswith (lower n) ''.csv''" by auto
    then have "a # names = (a # pre) @ f # post \<and>
        (\<forall>n\<in>set (a # pre). \<not> endswith (lower n) ''.csv'')"
      using False by simp
    with \<open>f \<in> set names\<close> \<open>endswith (lower f) ''.csv''\<close> show ?thesis
      by (metis list.set_intros(2))
  qed
qed

lemma find_csv_None: "find_csv names = None \<longleftrightarrow> (\<forall>n\<in>set names. \<not> endswith (lower n) ''.csv'')"
  by (induction names) auto

lemma rename_file_sibling:
  assumes "lookup r (a @ [x]) = Some (File c)" and "x \<noteq> y"
  shows "rename r (a @ [x]) (a @ [y]) =
     (if is_dir r (a @ [y]) then Inl (Error IsADirectoryError ''[Errno 21] Is a directory'')
      else Inr (put (put r (a @ [x]) None) (a @ [y]) (Some (File c))))"
proof -
  have "is_dir r a" using assms(1) by (rule exists_parent_is_dir)
  then show ?thesis
    using assms by (auto simp: rename_def is_dir_def split: option.splits node.splits)
qed

lemma unlink_file: "lookup r p = Some (File c) \<Longrightarrow> unlink r p = Inr (put r p None)"
  by (simp add: unlink_def)

lemma ZipFile_zip: "lookup r p = Some (File (ZipBytes ms)) \<Longrightarrow> ZipFile r p = Inr ms"
  by (simp add: ZipFile_def)

lemma extraction:
  assumes cp: "is_dir r (cp @ [e])"
    and zip: "lookup r (cp @ [z]) = Some (File b)" and ez: "e \<noteq> z"
    and names: "\<forall>n\<in>set (namelist ms). simple_name n \<and> \<not> is_dir r (cp @ [e, n])"
  shows "\<exists>r'. extractall r (cp @ [e]) ms = (Inr (), r') \<and>
           is_dir r' (cp @ [e]) \<and> lookup r' (cp @ [z]) = Some (File b) \<and>
           (\<forall>n d. n \<in> set (namelist ms) \<longrightarrow> getinfo ms n = Some d \<longrightarrow>
               lookup r' (cp @ [e, n]) = Some (File (Bytes d))) \<and>
           (\<forall>x s. x \<notin> set (namelist ms) \<longrightarrow> lookup r' (cp @ e # x # s) = lookup r (cp @ e # x # s))"
proof -
  let ?dir = "cp @ [e]"
  let ?r' = "extracted r ?dir ms (namelist ms)"
  have "\<forall>n\<in>set (namelist ms). simple_name n \<and> getinfo ms n \<noteq> None \<and> \<not> is_dir r (?dir @ [n])"
    using names getinfo_namelist [of _ ms] by auto
  then have run: "extractall r ?dir ms = (Inr (), ?r')"
    unfolding extractall_def using cp by (intro extract_names_ok) auto
  have d: "is_dir ?r' ?dir" using cp by (rule extracted_is_dir)
  have z: "lookup ?r' (cp @ [z]) = Some (File b)"
    using extracted_other [of ?dir "cp @ [z]" r ms "namelist ms"] ez zip by simp
  have n: "lookup ?r' (cp @ [e, n]) = Some (File (Bytes d))"
    if "n \<in> set (namelist ms)" "getinfo ms n = Some d" for n d
    using extracted_named [OF cp that] by simp
  have x: "lookup ?r' (cp @ e # x # s) = lookup r (cp @ e # x # s)"
    if "x \<notin> set (namelist ms)" for x s
    using extracted_unnamed [OF that, of r ?dir ms s] by simp
  from run d z n x show ?thesis by blast
qed

lemma find_csv_nonempty: "find_csv names = Some f \<Longrightarrow> f \<noteq> []"
  by (auto dest!: find_csv_Some simp: endswith_def lower_def)

lemma move_csv_ok:
  assumes td: "is_dir r (cp @ [e])"
    and c: "simple_name c"
    and f: "find_csv (namelist ms) = Some f" and fs: "simple_name f"
    and src: "lookup r (cp @ [e, f]) = Some (File (Bytes d))"
    and nd: "\<not> is_dir r (cp @ [e, c])"
  shows "\<exists>r'. move_csv r t (cp @ [e]) (cp @ [e, c]) ms = (Inr (), r') \<and>
           lookup r' (cp @ [e, c]) = Some (File (Bytes d)) \<and>
           (f \<noteq> c \<longrightarrow> lookup r' (cp @ [e, f]) = None) \<and>
           (\<forall>q. \<not> prefix (cp @ [e, f]) q \<longrightarrow> \<not> prefix (cp @ [e, c]) q \<longrightarrow>
               \<not> prefix q (cp @ [e]) \<longrightarrow> lookup r' q = lookup r q) \<and>
           (\<forall>q. prefix q (cp @ [e]) \<longrightarrow> is_dir r' q = is_dir r q)"
proof (cases "f = c")
  case True
  then show ?thesis
    using f fs src find_csv_nonempty [OF f]
    by (simp add: move_csv_def joinpath_simple)
next
  case False
  let ?src = "(cp @ [e]) @ [f]" and ?dst = "(cp @ [e]) @ [c]"
  let ?r1 = "put r ?src None"
  let ?r' = "put ?r1 ?dst (Some (File (Bytes d)))"
  have ren: "rename r ?src ?dst = Inr ?r'"
    using rename_file_sibling [of r "cp @ [e]" f "Bytes d" c] src nd False by simp
  have run: "move_csv r t (cp @ [e]) (cp @ [e, c]) ms = (Inr (), ?r')"
    using f fs find_csv_nonempty [OF f] False ren
    by (simp add: move_csv_def joinpath_simple)
  have d1: "is_dir ?r1 (cp @ [e])" using td by (simp only: is_dir_put_parent)
  have dst: "lookup ?r' (cp @ [e, c]) = Some (File (Bytes d))"
    using lookup_put_same [OF d1, of c] by simp
  have "lookup ?r' ?src = lookup ?r1 ?src"
    using False by (intro lookup_put_other) auto
  then have gone: "lookup ?r' (cp @ [e, f]) = None"
    using lookup_put_same [OF td, of f None] by simp
  have other: "lookup ?r' q = lookup r q"
    if "\<not> prefix (cp @ [e, f]) q" "\<not> prefix (cp @ [e, c]) q" "\<not> prefix q (cp @ [e])" for q
  proof -
    have a: "\<not> prefix q ?src" "\<not> prefix q ?dst"
      using that prefix_snoc [of q "cp @ [e]" f] prefix_snoc [of q "cp @ [e]" c] by auto
    have "lookup ?r' q = lookup ?r1 q" using that a by (intro lookup_put_other) auto
    also have "\<dots> = lookup r q" using that a by (intro lookup_put_other) auto
    finally show ?thesis .
  qed
  have above: "is_dir ?r' q = is_dir r q" if "prefix q (cp @ [e])" for q
  proof -
    have a: "strict_prefix q ?src" "strict_prefix q ?dst"
      using that prefix_snoc [of q "cp @ [e]" f] prefix_snoc [of q "cp @ [e]" c]
      by (auto simp: strict_prefix_def)
    show ?thesis using a by (simp only: is_dir_put_above)
  qed
  from run dst gone other above show ?thesis by blast
qed

lemma unpack_ok:
  assumes td: "is_dir r (cp @ [e])"
    and zip: "lookup r (cp @ [z]) = Some (File (ZipBytes ms))" and ez: "e \<noteq> z"
    and names: "\<forall>n\<in>set (namelist ms). simple_name n \<and> \<not> is_dir r (cp @ [e, n])"
    and c: "simple_name c" and nd: "\<not> is_dir r (cp @ [e, c])"
    and f: "find_csv (namelist ms) = Some f"
  shows "\<exists>r' d. unpack r t (cp @ [z]) (cp @ [e]) (cp @ [e, c]) = (Inr (), r') \<and>
           getinfo ms f = Some d \<and>
           lookup r' (cp @ [e, c]) = Some (File (Bytes d)) \<and>
           lookup r' (cp @ [z]) = Some (File (ZipBytes ms)) \<and>
           is_dir r' (cp @ [e]) \<and>
           (f \<noteq> c \<longrightarrow> lookup r' (cp @ [e, f]) = None) \<and>
           (\<forall>n d'. n \<in> set (namelist ms) \<longrightarrow> n \<noteq> f \<longrightarrow> n \<noteq> c \<longrightarrow> getinfo ms n = Some d' \<longrightarrow>
               lookup r' (cp @ [e, n]) = Some (File (Bytes d'))) \<and>
           (\<forall>x s. x \<notin> set (namelist ms) \<longrightarrow> x \<noteq> c \<longrightarrow>
               lookup r' (cp @ e # x # s) = lookup r (cp @ e # x # s))"
proof -
  from extraction [OF td zip ez names] obtain r1 where
    ex: "extractall r (cp @ [e]) ms = (Inr (), r1)"
    and td1: "is_dir r1 (cp @ [e])"
    and zip1: "lookup r1 (cp @ [z]) = Some (File (ZipBytes ms))"
    and named: "\<And>n d. n \<in> set (namelist ms) \<Longrightarrow> getinfo ms n = Some d \<Longrightarrow>
        lookup r1 (cp @ [e, n]) = Some (File (Bytes d))"
    and unnamed: "\<And>x s. x \<notin> set (namelist ms) \<Longrightarrow>
        lookup r1 (cp @ e # x # s) = lookup r (cp @ e # x # s)"
    by blast
  from find_csv_Some [OF f] have fin: "f \<in> set (namelist ms)" by simp
  then obtain d where d: "getinfo ms f = Some d" using getinfo_namelist by blast
  have fsimple: "simple_name f" using names fin by blast
  have src: "lookup r1 (cp @ [e, f]) = Some (File (Bytes d))" using named [OF fin d] .
  have nd1: "\<not> is_dir r1 (cp @ [e, c])"
  proof (cases "c \<in> set (namelist ms)")
    case True
    then obtain d' where "getinfo ms c = Some d'" using getinfo_namelist by blast
    from named [OF True this] show ?thesis by (simp add: is_dir_def)
  next
    case False
    from unnamed [OF False, of "[]"] nd show ?thesis by (simp add: is_dir_def)
  qed
  from move_csv_ok [OF td1 c f fsimple src nd1, of t] obtain r' where
    mv: "move_csv r1 t (cp @ [e]) (cp @ [e, c]) ms = (Inr (), r')"
    and dst: "lookup r' (cp @ [e, c]) = Some (File (Bytes d))"
    and gone: "f \<noteq> c \<longrightarrow> lookup r' (cp @ [e, f]) = None"
    and other: "\<And>q. \<not> prefix (cp @ [e, f]) q \<Longrightarrow> \<not> prefix (cp @ [e, c]) q \<Longrightarrow>
               \<not> prefix q (cp @ [e]) \<Longrightarrow> lookup r' q = lookup r1 q"
    and above: "\<And>q. prefix q (cp @ [e]) \<Longrightarrow> is_dir r' q = is_dir r1 q"
    by blast
  have run: "unpack r t (cp @ [z]) (cp @ [e]) (cp @ [e, c]) = (Inr (), r')"
    by (simp add: unpack_def ZipFile_zip [OF zip] ex mv)
  have zip': "lookup r' (cp @ [z]) = Some (File (ZipBytes ms))"
    using other [of "cp @ [z]"] ez zip1 by simp
  have td': "is_dir r' (cp @ [e])" using above [of "cp @ [e]"] td1 by simp
  have rest: "lookup r' (cp @ [e, n]) = Some (File (Bytes d'))"
    if "n \<in> set (namelist ms)" "n \<noteq> f" "n \<noteq> c" "getinfo ms n = Some d'" for n d'
    using other [of "cp @ [e, n]"] named [OF that(1,4)] that(2,3) by simp
  have frame: "lookup r' (cp @ e # x # s) = lookup r (cp @ e # x # s)"
    if "x \<notin> set (namelist ms)" "x \<noteq> c" for x s
  proof -
    have "x \<noteq> f" using that fin by auto
    then show ?thesis using other [of "cp @ e # x # s"] unnamed [OF that(1), of s] that(2) by simp
  qed
  from run d dst zip' td' gone rest frame show ?thesis by blast
qed

lemma unpack_no_csv:
  assumes td: "is_dir r (cp @ [e])"
    and zip: "lookup r (cp @ [z]) = Some (File (ZipBytes ms))" and ez: "e \<noteq> z"
    and names: "\<forall>n\<in>set (namelist ms). simple_name n \<and> \<not> is_dir r (cp @ [e, n])"
    and f: "find_csv (namelist ms) = None"
  shows "\<exists>r'. unpack r t (cp @ [z]) (cp @ [e]) csv = (Inl (no_csv_error t), r') \<and>
           lookup r' (cp @ [z]) = Some (File (ZipBytes ms)) \<and>
           is_dir r' (cp @ [e]) \<and>
           (\<forall>n d. n \<in> set (namelist ms) \<longrightarrow> getinfo ms n = Some d \<longrightarrow>
               lookup r' (cp @ [e, n]) = Some (File (Bytes d))) \<and>
           (\<forall>x s. x \<notin> set (namelist ms) \<longrightarrow>
               lookup r' (cp @ e # x # s) = lookup r (cp @ e # x # s))"
proof -
  from extraction [OF td zip ez names] obtain r1 where
    ex: "extractall r (cp @ [e]) ms = (Inr (), r1)"
    and rest: "is_dir r1 (cp @ [e])" "lookup r1 (cp @ [z]) = Some (File (ZipBytes ms))"
      "\<forall>n d. n \<in> set (namelist ms) \<longrightarrow> getinfo ms n = Some d \<longrightarrow>
        lookup r1 (cp @ [e, n]) = Some (File (Bytes d))"
      "\<forall>x s. x \<notin> set (namelist ms) \<longrightarrow>
        lookup r1 (cp @ e # x # s) = lookup r (cp @ e # x # s)"
    by blast
  have "unpack r t (cp @ [z]) (cp @ [e]) csv = (Inl (no_csv_error t), r1)"
    by (simp add: unpack_def ZipFile_zip [OF zip] ex move_csv_def f)
  with rest show ?thesis by blast
qed

lemma raise_for_status_ok:
  "raise_for_status st reason url = Inr u \<longleftrightarrow> \<not> (400 \<le> st \<and> st < 600)"
  by (auto simp: raise_for_status_def)

lemma prepare:
  assumes cp: "is_dir r cp" and tdf: "\<not> is_file r (cp @ [e])"
    and zd: "\<not> is_dir r (cp @ [z])" and ez: "e \<noteq> z"
  shows "\<exists>r1 r3. makedirs r (cp @ [e]) = Inr r1 \<and> open_write r1 (cp @ [z]) b = Inr r3 \<and>
           is_dir r3 (cp @ [e]) \<and> lookup r3 (cp @ [z]) = Some (File b) \<and>
           (\<forall>x s. lookup r3 (cp @ e # x # s) = lookup r (cp @ e # x # s))"
proof -
  have "\<exists>r1. makedirs r (cp @ [e]) = Inr r1"
  proof (cases "lookup r (cp @ [e])")
    case None
    then show ?thesis by (simp add: makedirs_snoc [OF cp])
  next
    case (Some a)
    then show ?thesis using tdf by (cases a) (simp_all add: makedirs_snoc [OF cp] is_file_def)
  qed
  then obtain r1 where mk: "makedirs r (cp @ [e]) = Inr r1" ..
  have cp1: "is_dir r1 cp" using makedirs_above [OF mk, of cp] by simp
  have td1: "is_dir r1 (cp @ [e])" using mk by (rule makedirs_post)
  have same1: "lookup r1 q = lookup r q" if "\<not> prefix q (cp @ [e])" for q
    using makedirs_frame [OF mk that] .
  have "\<not> is_dir r1 (cp @ [z])" using same1 [of "cp @ [z]"] zd ez by (simp add: is_dir_def)
  then have ow: "open_write r1 (cp @ [z]) b = Inr (put r1 (cp @ [z]) (Some (File b)))"
    by (simp add: open_write_snoc [OF cp1])
  let ?r3 = "put r1 (cp @ [z]) (Some (File b))"
  have same3: "lookup ?r3 q = lookup r1 q" if "\<not> prefix q (cp @ [z])" "\<not> prefix (cp @ [z]) q" for q
    using that by (intro lookup_put_other) auto
  have td3: "is_dir ?r3 (cp @ [e])" using same3 [of "cp @ [e]"] td1 ez by (simp add: is_dir_def)
  have z3: "lookup ?r3 (cp @ [z]) = Some (File b)" using lookup_put_same [OF cp1] .
  have below: "lookup ?r3 (cp @ e # x # s) = lookup r (cp @ e # x # s)" for x s
    using same3 [of "cp @ e # x # s"] same1 [of "cp @ e # x # s"] ez by (simp add: prefix_snoc)
  from mk ow td3 z3 below show ?thesis by blast
qed

lemma fetch_reply:
  assumes "makedirs (fs w) td = Inr r1"
    and "server w (get_table_url t l) = Reply st reason rurl body"
    and "\<not> (400 \<le> st \<and> st < 600)"
    and "open_write r1 zp body = Inr r3"
  shows "fetch w t l zp td csv =
     (case unpack r3 t zp td csv of
        (Inl e, r4) \<Rightarrow> (Inl e, w\<lparr>fs := r4, requests := requests w @ [get_table_url t l]\<rparr>)
      | (Inr u, r4) \<Rightarrow>
          (case unlink r4 zp of
             Inl e \<Rightarrow> (Inl e, w\<lparr>fs := r4, requests := requests w @ [get_table_url t l]\<rparr>)
           | Inr r5 \<Rightarrow> (Inr csv, w\<lparr>fs := r5, requests := requests w @ [get_table_url t l]\<rparr>)))"
proof -
  have "raise_for_status st reason rurl = Inr ()"
    using assms(3) by (auto simp: raise_for_status_def)
  then show ?thesis
    using assms(1,2,4) by (simp add: fetch_def requests_get_def Let_def split: prod.splits sum.splits)
qed

lemma fetch_ok:
  assumes cp: "is_dir (fs w) cp" and tdf: "\<not> is_file (fs w) (cp @ [e])"
    and zd: "\<not> is_dir (fs w) (cp @ [z])" and ez: "e \<noteq> z"
    and srv: "server w (get_table_url t l) = Reply st reason rurl (ZipBytes ms)"
    and st: "\<not> (400 \<le> st \<and> st < 600)"
    and names: "\<forall>n\<in>set (namelist ms). simple_name n \<and> \<not> is_dir (fs w) (cp @ [e, n])"
    and c: "simple_name c" and nd: "\<not> is_dir (fs w) (cp @ [e, c])"
    and f: "find_csv (namelist ms) = Some f"
  shows "\<exists>w' d. fetch w t l (cp @ [z]) (cp @ [e]) (cp @ [e, c]) = (Inr (cp @ [e, c]), w') \<and>
           getinfo ms f = Some d \<and>
           lookup (fs w') (cp @ [e, c]) = Some (File (Bytes d)) \<and>
           lookup (fs w') (cp @ [z]) = None \<and>
           is_dir (fs w') (cp @ [e]) \<and>
           requests w' = requests w @ [get_table_url t l] \<and>
           server w' = server w \<and> home w' = home w \<and>
           (f \<noteq> c \<longrightarrow> lookup (fs w') (cp @ [e, f]) = None) \<and>
           (\<forall>n d'. n \<in> set (namelist ms) \<longrightarrow> n \<noteq> f \<longrightarrow> n \<noteq> c \<longrightarrow> getinfo ms n = Some d' \<longrightarrow>
               lookup (fs w') (cp @ [e, n]) = Some (File (Bytes d'))) \<and>
           (\<forall>x s. x \<notin> set (namelist ms) \<longrightarrow> x \<noteq> c \<longrightarrow>
               lookup (fs w') (cp @ e # x # s) = lookup (fs w) (cp @ e # x # s))"
proof -
  from prepare [OF cp tdf zd ez, of "ZipBytes ms"] obtain r1 r3 where
    mk: "makedirs (fs w) (cp @ [e]) = Inr r1"
    and ow: "open_write r1 (cp @ [z]) (ZipBytes ms) = Inr r3"
    and td3: "is_dir r3 (cp @ [e])"
    and z3: "lookup r3 (cp @ [z]) = Some (File (ZipBytes ms))"
    and below: "\<And>x s. lookup r3 (cp @ e # x # s) = lookup (fs w) (cp @ e # x # s)"
    by blast
  have names3: "\<forall>n\<in>set (namelist ms). simple_name n \<and> \<not> is_dir r3 (cp @ [e, n])"
    using names below [of _ "[]"] by (simp add: is_dir_def)
  have nd3: "\<not> is_dir r3 (cp @ [e, c])" using nd below [of c "[]"] by (simp add: is_dir_def)
  from unpack_ok [OF td3 z3 ez names3 c nd3 f, of t] obtain r4 d where
    un: "unpack r3 t (cp @ [z]) (cp @ [e]) (cp @ [e, c]) = (Inr (), r4)"
    and d: "getinfo ms f = Some d"
    and csv4: "lookup r4 (cp @ [e, c]) = Some (File (Bytes d))"
    and z4: "lookup r4 (cp @ [z]) = Some (File (ZipBytes ms))"
    and td4: "is_dir r4 (cp @ [e])"
    and gone4: "f \<noteq> c \<longrightarrow> lookup r4 (cp @ [e, f]) = None"
    and rest4: "\<And>n d'. n \<in> set (namelist ms) \<Longrightarrow> n \<noteq> f \<Longrightarrow> n \<noteq> c \<Longrightarrow> getinfo ms n = Some d' \<Longrightarrow>
               lookup r4 (cp @ [e, n]) = Some (File (Bytes d'))"
    and frame4: "\<And>x s. x \<notin> set (namelist ms) \<Longrightarrow> x \<noteq> c \<Longrightarrow>
               lookup r4 (cp @ e # x # s) = lookup r3 (cp @ e # x # s)"
    by blast
  let ?r5 = "put r4 (cp @ [z]) None"
  let ?w' = "w\<lparr>fs := ?r5, requests := requests w @ [get_table_url t l]\<rparr>"
  have run: "fetch w t l (cp @ [z]) (cp @ [e]) (cp @ [e, c]) = (Inr (cp @ [e, c]), ?w')"
    by (simp add: fetch_reply [OF mk srv st ow] un unlink_file [OF z4])
  have cp4: "is_dir r4 cp" using is_dir_prefix [of r4 cp "[e]"] td4 by simp
  have z5: "lookup ?r5 (cp @ [z]) = None" using lookup_put_same [OF cp4] .
  have same5: "lookup ?r5 (cp @ e # s) = lookup r4 (cp @ e # s)" for s
    using ez by (intro lookup_put_other) auto
  have "fs ?w' = ?r5" by simp
  moreover have "lookup ?r5 (cp @ [e, c]) = Some (File (Bytes d))"
    using same5 [of "[c]"] csv4 by simp
  moreover have "is_dir ?r5 (cp @ [e])" using same5 [of "[]"] td4 by (simp add: is_dir_def)
  moreover have "f \<noteq> c \<longrightarrow> lookup ?r5 (cp @ [e, f]) = None"
    using same5 [of "[f]"] gone4 by simp
  moreover have "\<forall>n d'. n \<in> set (namelist ms) \<longrightarrow> n \<noteq> f \<longrightarrow> n \<noteq> c \<longrightarrow> getinfo ms n = Some d' \<longrightarrow>
               lookup ?r5 (cp @ [e, n]) = Some (File (Bytes d'))"
    using same5 [of "[_]"] rest4 by simp
  moreover have "\<forall>x s. x \<notin> set (namelist ms) \<longrightarrow> x \<noteq> c \<longrightarrow>
               lookup ?r5 (cp @ e # x # s) = lookup (fs w) (cp @ e # x # s)"
    using same5 [of "_ # _"] frame4 below by simp
  ultimately show ?thesis using run d z5
    by (intro exI [of _ ?w'] exI [of _ d]) simp
qed

lemma fetch_no_csv:
  assumes cp: "is_dir (fs w) cp" and tdf: "\<not> is_file (fs w) (cp @ [e])"
    and zd: "\<not> is_dir (fs w) (cp @ [z])" and ez: "e \<noteq> z"
    and srv: "server w (get_table_url t l) = Reply st reason rurl (ZipBytes ms)"
    and st: "\<not> (400 \<le> st \<and> st < 600)"
    and names: "\<forall>n\<in>set (namelist ms). simple_name n \<and> \<not> is_dir (fs w) (cp @ [e, n])"
    and f: "find_csv (namelist ms) = None"
  shows "\<exists>w'. fetch w t l (cp @ [z]) (cp @ [e]) csv = (Inl (no_csv_error t), w') \<and>
           lookup (fs w') (cp @ [z]) = Some (File (ZipBytes ms)) \<and>
           is_dir (fs w') (cp @ [e]) \<and>
           requests w' = requests w @ [get_table_url t l] \<and>
           (\<forall>n d. n \<in> set (namelist ms) \<longrightarrow> getinfo ms n = Some d \<longrightarrow>
               lookup (fs w') (cp @ [e, n]) = Some (File (Bytes d))) \<and>
           (\<forall>x s. x \<notin> set (namelist ms) \<longrightarrow>
               lookup (fs w') (cp @ e # x # s) = lookup (fs w) (cp @ e # x # s))"
proof -
  from prepare [OF cp tdf zd ez, of "ZipBytes ms"] obtain r1 r3 where
    mk: "makedirs (fs w) (cp @ [e]) = Inr r1"
    and ow: "open_write r1 (cp @ [z]) (ZipBytes ms) = Inr r3"
    and td3: "is_dir r3 (cp @ [e])"
    and z3: "lookup r3 (cp @ [z]) = Some (File (ZipBytes ms))"
    and below: "\<And>x s. lookup r3 (cp @ e # x # s) = lookup (fs w) (cp @ e # x # s)"
    by blast
  have names3: "\<forall>n\<in>set (namelist ms). simple_name n \<and> \<not> is_dir r3 (cp @ [e, n])"
    using names below [of _ "[]"] by (simp add: is_dir_def)
  from unpack_no_csv [OF td3 z3 ez names3 f, of t csv] obtain r4 where
    un: "unpack r3 t (cp @ [z]) (cp @ [e]) csv = (Inl (no_csv_error t), r4)"
    and rest: "lookup r4 (cp @ [z]) = Some (File (ZipBytes ms))" "is_dir r4 (cp @ [e])"
      "\<forall>n d. n \<in> set (namelist ms) \<longrightarrow> getinfo ms n = Some d \<longrightarrow>
               lookup r4 (cp @ [e, n]) = Some (File (Bytes d))"
    and frame: "\<forall>x s. x \<notin> set (namelist ms) \<longrightarrow>
               lookup r4 (cp @ e # x # s) = lookup r3 (cp @ e # x # s)"
    by blast
  let ?w' = "w\<lparr>fs := r4, requests := requests w @ [get_table_url t l]\<rparr>"
  have "fetch w t l (cp @ [z]) (cp @ [e]) csv = (Inl (no_csv_error t), ?w')"
    by (simp add: fetch_reply [OF mk srv st ow] un)
  with rest frame below show ?thesis by (intro exI [of _ ?w']) simp
qed

lemma unpack_inv:
  assumes un: "unpack r t zp td csv = (Inr u, r')"
  shows "\<exists>ms r1 f. ZipFile r zp = Inr ms \<and> extractall r td ms = (Inr (), r1) \<and>
           find_csv (namelist ms) = Some f"
proof -
  from un obtain ms where z: "ZipFile r zp = Inr ms"
    by (cases "ZipFile r zp") (auto simp: unpack_def)
  from un z obtain r1 where ex: "extractall r td ms = (Inr (), r1)"
    by (cases "extractall r td ms") (auto simp: unpack_def split: sum.splits)
  from un z ex obtain f where "find_csv (namelist ms) = Some f"
    by (cases "find_csv (namelist ms)") (auto simp: unpack_def move_csv_def)
  with z ex show ?thesis by blast
qed

lemma ZipFile_inv: "ZipFile r p = Inr ms \<Longrightarrow> lookup r p = Some (File (ZipBytes ms))"
  by (auto simp: ZipFile_def split: option.splits node.splits content.splits)

lemma simple_archives_names:
  "simple_archives w url \<Longrightarrow> server w url = Reply st reason rurl (ZipBytes ms) \<Longrightarrow>
   \<forall>n\<in>set (namelist ms). simple_name n"
  by (simp add: simple_archives_def list_all_iff)

lemma fetch_inv:
  assumes run: "fetch w t l (cp @ [z]) (cp @ [e]) (cp @ [e, c]) = (Inr p, w')"
    and cp: "is_dir (fs w) cp" and ez: "e \<noteq> z"
    and simple: "simple_archives w (get_table_url t l)"
  shows "\<exists>st reason rurl ms f. server w (get_table_url t l) = Reply st reason rurl (ZipBytes ms) \<and>
           \<not> (400 \<le> st \<and> st < 600) \<and>
           \<not> is_file (fs w) (cp @ [e]) \<and> \<not> is_dir (fs w) (cp @ [z]) \<and>
           (\<forall>n\<in>set (namelist ms). simple_name n \<and> \<not> is_dir (fs w) (cp @ [e, n])) \<and>
           find_csv (namelist ms) = Some f"
proof -
  let ?url = "get_table_url t l"
  from run obtain r1 where mk: "makedirs (fs w) (cp @ [e]) = Inr r1"
    by (cases "makedirs (fs w) (cp @ [e])") (auto simp: fetch_def)
  from run mk obtain st reason rurl body where srv: "server w ?url = Reply st reason rurl body"
    by (cases "server w ?url") (auto simp: fetch_def requests_get_def Let_def)
  from run mk srv obtain u where rs: "raise_for_status st reason rurl = Inr u"
    by (cases "raise_for_status st reason rurl") (auto simp: fetch_def requests_get_def Let_def)
  then have st: "\<not> (400 \<le> st \<and> st < 600)" by (simp add: raise_for_status_ok)
  from run mk srv rs obtain r3 where ow: "open_write r1 (cp @ [z]) body = Inr r3"
    by (cases "open_write r1 (cp @ [z]) body") (auto simp: fetch_def requests_get_def Let_def)
  from run obtain u' r4 where un: "unpack r3 t (cp @ [z]) (cp @ [e]) (cp @ [e, c]) = (Inr u', r4)"
    by (cases "unpack r3 t (cp @ [z]) (cp @ [e]) (cp @ [e, c])")
      (auto simp: fetch_reply [OF mk srv st ow] split: sum.splits)
  from unpack_inv [OF un] obtain ms r5 f where
    zf: "ZipFile r3 (cp @ [z]) = Inr ms" and ex: "extractall r3 (cp @ [e]) ms = (Inr (), r5)"
    and f: "find_csv (namelist ms) = Some f" by blast
  have tdf: "\<not> is_file (fs w) (cp @ [e])"
    using mk by (auto simp: makedirs_snoc [OF cp] is_file_def split: option.splits node.splits)
  have cp1: "is_dir r1 cp" using makedirs_above [OF mk, of cp] by simp
  have nz1: "\<not> is_dir r1 (cp @ [z])"
    using ow by (auto simp: open_write_snoc [OF cp1] split: if_splits)
  have "lookup r1 (cp @ [z]) = lookup (fs w) (cp @ [z])"
    using makedirs_frame [OF mk, of "cp @ [z]"] ez by simp
  with nz1 have zd: "\<not> is_dir (fs w) (cp @ [z])" by (simp add: is_dir_def)
  from prepare [OF cp tdf zd ez, of body] mk ow have
    td3: "is_dir r3 (cp @ [e])" and z3: "lookup r3 (cp @ [z]) = Some (File body)"
    and below: "\<And>x s. lookup r3 (cp @ e # x # s) = lookup (fs w) (cp @ e # x # s)"
    by auto
  from ZipFile_inv [OF zf] z3 have body: "body = ZipBytes ms" by simp
  from simple_archives_names [OF simple] srv body
  have sn: "\<forall>n\<in>set (namelist ms). simple_name n" by blast
  from extract_names_inv [of r3 "cp @ [e]" ms "namelist ms" "()" r5] ex td3 sn
  have "\<forall>n\<in>set (namelist ms). \<not> is_dir r3 (cp @ [e, n])" by (simp add: extractall_def)
  then have "\<forall>n\<in>set (namelist ms). \<not> is_dir (fs w) (cp @ [e, n])"
    using below [of _ "[]"] by (simp add: is_dir_def)
  with srv body st tdf zd sn f show ?thesis by blast
qed

lemma get_cache_dir_Inr:
  assumes "get_cache_dir w cd = (Inr cp, w1)"
  shows "cp = cache_dir_of w cd" and "makedirs (fs w) cp = Inr (fs w1)"
    and "is_dir (fs w1) cp" and "home w1 = home w" and "server w1 = server w"
    and "requests w1 = requests w"
proof -
  from assms obtain r where mk: "makedirs (fs w) (cache_dir_of w cd) = Inr r"
    and cp: "cp = cache_dir_of w cd" and w1: "w1 = w\<lparr>fs := r\<rparr>"
    by (cases "makedirs (fs w) (cache_dir_of w cd)") (auto simp: get_cache_dir_def Let_def)
  show "cp = cache_dir_of w cd" by (rule cp)
  show "makedirs (fs w) cp = Inr (fs w1)" using mk cp w1 by simp
  then show "is_dir (fs w1) cp" by (rule makedirs_post)
  show "home w1 = home w" "server w1 = server w" "requests w1 = requests w"
    using w1 by simp_all
qed

lemma get_cache_dir_existing:
  "is_dir (fs w) (cache_dir_of w cd) \<Longrightarrow> get_cache_dir w cd = (Inr (cache_dir_of w cd), w)"
  by (simp add: get_cache_dir_def makedirs_is_dir)

lemma cache_dir_of_home: "home w' = home w \<Longrightarrow> cache_dir_of w' cd = cache_dir_of w cd"
  by (simp add: cache_dir_of_def split: option.splits)

lemma download_table_miss:
  "get_cache_dir w cd = (Inr cp, w1) \<Longrightarrow> \<not> path_exists (fs w1) (csv_path_of cp t l) \<Longrightarrow>
   download_table w t cd l =
     fetch w1 t l (zip_path_of cp t l) (table_dir_of cp t l) (csv_path_of cp t l)"
  by (simp add: download_table_def Let_def)

lemma download_table_hit:
  "get_cache_dir w cd = (Inr cp, w1) \<Longrightarrow> path_exists (fs w1) (csv_path_of cp t l) \<Longrightarrow>
   download_table w t cd l = (Inr (csv_path_of cp t l), w1)"
  by (simp add: download_table_def Let_def)

lemma entry_neq_zip: "entry_name t l \<noteq> entry_name t l @ ''.zip''"
  by simp

lemma simple_csv_name: "plain t \<Longrightarrow> plain l \<Longrightarrow> simple_name (entry_name t l @ ''.csv'')"
  using simple_entry [of t l "''.csv''"] by (simp add: entry_name_def plain_def)

lemma getinfo_member: "getinfo ms n = Some d \<Longrightarrow> (n, d) \<in> set ms"
  by (auto simp: getinfo_def dest: map_of_SomeD)

lemma fetchable_found:
  assumes cache: "get_cache_dir w cache_dir = (Inr cache_path, w1)"
    and miss: "fetchable w1 cache_path table_id language ms"
    and found: "find_csv (namelist ms) = Some csv_filename"
  shows "\<exists>w' data.
           download_table w table_id cache_dir language =
             (Inr (csv_path_of cache_path table_id language), w') \<and>
           (csv_filename, data) \<in> set ms \<and> getinfo ms csv_filename = Some data \<and>
           lookup (fs w') (csv_path_of cache_path table_id language) = Some (File (Bytes data)) \<and>
           (csv_filename \<noteq> entry_name table_id language @ ''.csv'' \<longrightarrow>
              lookup (fs w') (table_dir_of cache_path table_id language @ [csv_filename]) = None) \<and>
           lookup (fs w') (zip_path_of cache_path table_id language) = None \<and>
           is_dir (fs w') (table_dir_of cache_path table_id language) \<and>
           requests w' = requests w @ [get_table_url table_id language] \<and>
           server w' = server w \<and> home w' = home w \<and>
           (\<forall>n d. n \<in> set (namelist ms) \<longrightarrow> n \<noteq> csv_filename \<longrightarrow>
               n \<noteq> entry_name table_id language @ ''.csv'' \<longrightarrow> getinfo ms n = Some d \<longrightarrow>
               lookup (fs w') (table_dir_of cache_path table_id language @ [n]) =
                 Some (File (Bytes d)))"
proof -
  let ?e = "entry_name table_id language"
  from miss have pl: "plain table_id" "plain language" by (simp_all add: fetchable_def)
  note paths = paths_plain [OF pl, of cache_path]
  from miss obtain st reason rurl where
    srv: "server w1 (get_table_url table_id language) = Reply st reason rurl (ZipBytes ms)"
    and st: "\<not> (400 \<le> st \<and> st < 600)"
    by (auto simp: fetchable_def)
  from miss have nocsv: "\<not> path_exists (fs w1) (cache_path @ [?e, ?e @ ''.csv''])"
    and tdf: "\<not> is_file (fs w1) (cache_path @ [?e])"
    and zd: "\<not> is_dir (fs w1) (cache_path @ [?e @ ''.zip''])"
    and names: "\<forall>n\<in>set (namelist ms). simple_name n \<and> \<not> is_dir (fs w1) (cache_path @ [?e, n])"
    by (simp_all add: fetchable_def paths list_all_iff)
  from nocsv have nd: "\<not> is_dir (fs w1) (cache_path @ [?e, ?e @ ''.csv''])"
    by (simp add: path_exists_def is_dir_def)
  have cp: "is_dir (fs w1) cache_path" using get_cache_dir_Inr(3) [OF cache] .
  from fetch_ok [OF cp tdf zd entry_neq_zip srv st names simple_csv_name [OF pl] nd found]
  obtain w' d where
    run: "fetch w1 table_id language (cache_path @ [?e @ ''.zip'']) (cache_path @ [?e])
            (cache_path @ [?e, ?e @ ''.csv'']) = (Inr (cache_path @ [?e, ?e @ ''.csv'']), w')"
    and d: "getinfo ms csv_filename = Some d"
    and csv: "lookup (fs w') (cache_path @ [?e, ?e @ ''.csv'']) = Some (File (Bytes d))"
    and zip: "lookup (fs w') (cache_path @ [?e @ ''.zip'']) = None"
    and td: "is_dir (fs w') (cache_path @ [?e])"
    and rq: "requests w' = requests w1 @ [get_table_url table_id language]"
    and sv: "server w' = server w1" and hm: "home w' = home w1"
    and gone: "csv_filename \<noteq> ?e @ ''.csv'' \<longrightarrow> lookup (fs w') (cache_path @ [?e, csv_filename]) = None"
    and rest: "\<forall>n d'. n \<in> set (namelist ms) \<longrightarrow> n \<noteq> csv_filename \<longrightarrow> n \<noteq> ?e @ ''.csv'' \<longrightarrow>
        getinfo ms n = Some d' \<longrightarrow> lookup (fs w') (cache_path @ [?e, n]) = Some (File (Bytes d'))"
    by blast
  have "download_table w table_id cache_dir language = (Inr (cache_path @ [?e, ?e @ ''.csv'']), w')"
    using download_table_miss [OF cache, of table_id language] nocsv run by (simp add: paths)
  with d csv zip gone td rq sv hm rest getinfo_member [OF d] get_cache_dir_Inr(4,5,6) [OF cache]
  show ?thesis
    by (intro exI [of _ w'] exI [of _ d]) (simp add: paths)
qed

lemma fetchable_no_csv:
  assumes cache: "get_cache_dir w cache_dir = (Inr cache_path, w1)"
    and miss: "fetchable w1 cache_path table_id language ms"
    and none: "find_csv (namelist ms) = None"
  shows "\<exists>w'. download_table w table_id cache_dir language = (Inl (no_csv_error table_id), w') \<and>
           lookup (fs w') (zip_path_of cache_path table_id language) = Some (File (ZipBytes ms)) \<and>
           is_dir (fs w') (table_dir_of cache_path table_id language) \<and>
           requests w' = requests w @ [get_table_url table_id language] \<and>
           (\<forall>n d. n \<in> set (namelist ms) \<longrightarrow> getinfo ms n = Some d \<longrightarrow>
               lookup (fs w') (table_dir_of cache_path table_id language @ [n]) = Some (File (Bytes d)))"
proof -
  let ?e = "entry_name table_id language"
  from miss have pl: "plain table_id" "plain language" by (simp_all add: fetchable_def)
  note paths = paths_plain [OF pl, of cache_path]
  from miss obtain st reason rurl where
    srv: "server w1 (get_table_url table_id language) = Reply st reason rurl (ZipBytes ms)"
    and st: "\<not> (400 \<le> st \<and> st < 600)"
    by (auto simp: fetchable_def)
  from miss have nocsv: "\<not> path_exists (fs w1) (cache_path @ [?e, ?e @ ''.csv''])"
    and tdf: "\<not> is_file (fs w1) (cache_path @ [?e])"
    and zd: "\<not> is_dir (fs w1) (cache_path @ [?e @ ''.zip''])"
    and names: "\<forall>n\<in>set (namelist ms). simple_name n \<and> \<not> is_dir (fs w1) (cache_path @ [?e, n])"
    by (simp_all add: fetchable_def paths list_all_iff)
  have cp: "is_dir (fs w1) cache_path" using get_cache_dir_Inr(3) [OF cache] .
  from fetch_no_csv [OF cp tdf zd entry_neq_zip srv st names none,
      of "cache_path @ [?e, ?e @ ''.csv'']"]
  obtain w' where
    run: "fetch w1 table_id language (cache_path @ [?e @ ''.zip'']) (cache_path @ [?e])
            (cache_path @ [?e, ?e @ ''.csv'']) = (Inl (no_csv_error table_id), w')"
    and rest: "lookup (fs w') (cache_path @ [?e @ ''.zip'']) = Some (File (ZipBytes ms))"
      "is_dir (fs w') (cache_path @ [?e])"
      "requests w' = requests w1 @ [get_table_url table_id language]"
      "\<forall>n d. n \<in> set (namelist ms) \<longrightarrow> getinfo ms n = Some d \<longrightarrow>
               lookup (fs w') (cache_path @ [?e, n]) = Some (File (Bytes d))"
    by blast
  have "download_table w table_id cache_dir language = (Inl (no_csv_error table_id), w')"
    using download_table_miss [OF cache, of table_id language] nocsv run by (simp add: paths)
  with rest get_cache_dir_Inr(6) [OF cache] show ?thesis
    by (intro exI [of _ w']) (simp add: paths)
qed

lemma makedirs_entry:
  assumes "is_dir r cp" and "\<not> is_file r (cp @ [e])"
  shows "\<exists>r1. makedirs r (cp @ [e]) = Inr r1"
proof (cases "lookup r (cp @ [e])")
  case None
  then show ?thesis by (simp add: makedirs_snoc [OF assms(1)])
next
  case (Some a)
  then show ?thesis
    using assms(2) by (cases a) (simp_all add: makedirs_snoc [OF assms(1)] is_file_def)
qed

lemma fetch_requests:
  "makedirs (fs w) td = Inr r1 \<Longrightarrow>
   requests (snd (fetch w t l zp td csv)) = requests w @ [get_table_url t l]"
  by (auto simp: fetch_def requests_get_def Let_def
      split: sum.splits http_result.splits prod.splits)

lemma entry_name_unique:
  assumes "CHR ''-'' \<notin> set l" and "CHR ''-'' \<notin> set l'"
  shows "entry_name t' l' = entry_name t l \<longleftrightarrow> t' = t \<and> l' = l"
proof
  assume eq: "entry_name t' l' = entry_name t l"
  have tw: "takeWhile (\<lambda>c. c \<noteq> CHR ''-'') (rev (entry_name a b)) = rev b"
    if "CHR ''-'' \<notin> set b" for a b
    using that by (auto simp: entry_name_def takeWhile_tail)
  from eq tw [OF assms(1), of t] tw [OF assms(2), of t'] have "l' = l" by simp
  with eq show "t' = t \<and> l' = l" by (simp add: entry_name_def)
qed simp

lemma csv_exists_cache_dir:
  assumes "plain t" "plain l" and "path_exists r (csv_path_of cp t l)"
  shows "is_dir r cp"
proof -
  from assms(3) obtain n where "lookup r ((cp @ [entry_name t l]) @ [entry_name t l @ ''.csv'']) = Some n"
    by (auto simp: path_exists_def paths_plain [OF assms(1,2)])
  then have "is_dir r (cp @ [entry_name t l])" by (rule exists_parent_is_dir)
  then show ?thesis by (rule is_dir_prefix)
qed

lemma download_table_cached:
  assumes pl: "plain t" "plain l"
    and ex: "path_exists (fs w) (csv_path_of (cache_dir_of w cd) t l)"
  shows "download_table w t cd l = (Inr (csv_path_of (cache_dir_of w cd) t l), w)"
proof -
  have "is_dir (fs w) (cache_dir_of w cd)" using csv_exists_cache_dir [OF pl ex] .
  then have "get_cache_dir w cd = (Inr (cache_dir_of w cd), w)" by (rule get_cache_dir_existing)
  from download_table_hit [OF this ex] show ?thesis .
qed

lemma download_table_Inr:
  assumes "download_table w t cd l = (Inr p, w')"
  shows "\<exists>w1. get_cache_dir w cd = (Inr (cache_dir_of w cd), w1)"
proof (cases "get_cache_dir w cd")
  case (Pair res w1)
  with assms obtain cp where "res = Inr cp" by (cases res) (auto simp: download_table_def)
  with Pair get_cache_dir_Inr(1) [of w cd cp w1] show ?thesis by auto
qed

lemma download_table_success:
  assumes pl: "plain t" "plain l"
    and sa: "simple_archives w (get_table_url t l)"
    and run: "download_table w t cd l = (Inr p, w')"
  shows "p = csv_path_of (cache_dir_of w cd) t l"
    and "path_exists (fs w') (csv_path_of (cache_dir_of w cd) t l)"
    and "home w' = home w" and "server w' = server w"
    and "requests w' = requests w \<or>
         (requests w' = requests w @ [get_table_url t l] \<and>
          is_file (fs w') (csv_path_of (cache_dir_of w cd) t l) \<and>
          lookup (fs w') (zip_path_of (cache_dir_of w cd) t l) = None)"
proof -
  let ?cp = "cache_dir_of w cd"
  let ?e = "entry_name t l"
  note paths = paths_plain [OF pl, of ?cp]
  from download_table_Inr [OF run] obtain w1 where
    cache: "get_cache_dir w cd = (Inr ?cp, w1)" by blast
  note c = get_cache_dir_Inr [OF cache]
  have goal: "p = csv_path_of ?cp t l \<and> path_exists (fs w') (csv_path_of ?cp t l) \<and>
      home w' = home w \<and> server w' = server w \<and>
      (requests w' = requests w \<or>
         (requests w' = requests w @ [get_table_url t l] \<and>
          is_file (fs w') (csv_path_of ?cp t l) \<and>
          lookup (fs w') (zip_path_of ?cp t l) = None))"
  proof (cases "path_exists (fs w1) (csv_path_of ?cp t l)")
    case True
    from download_table_hit [OF cache True] run have "p = csv_path_of ?cp t l" "w' = w1" by simp_all
    with True c show ?thesis by simp
  next
    case False
    from download_table_miss [OF cache False] run
    have f: "fetch w1 t l (?cp @ [?e @ ''.zip'']) (?cp @ [?e]) (?cp @ [?e, ?e @ ''.csv'']) = (Inr p, w')"
      by (simp add: paths)
    have "simple_archives w1 (get_table_url t l)"
      using sa c(5) by (simp add: simple_archives_def)
    from fetch_inv [OF f c(3) entry_neq_zip this] obtain st reason rurl ms g where
      srv: "server w1 (get_table_url t l) = Reply st reason rurl (ZipBytes ms)"
      and st: "\<not> (400 \<le> st \<and> st < 600)"
      and tdf: "\<not> is_file (fs w1) (?cp @ [?e])" and zd: "\<not> is_dir (fs w1) (?cp @ [?e @ ''.zip''])"
      and names: "\<forall>n\<in>set (namelist ms). simple_name n \<and> \<not> is_dir (fs w1) (?cp @ [?e, n])"
      and g: "find_csv (namelist ms) = Some g" by blast
    have "fetchable w1 ?cp t l ms"
      using pl False tdf zd srv st names by (auto simp: fetchable_def paths list_all_iff)
    from fetchable_found [OF cache this g] run show ?thesis
      by (auto simp: path_exists_def is_file_def)
  qed
  from goal show "p = csv_path_of ?cp t l" "path_exists (fs w') (csv_path_of ?cp t l)"
    "home w' = home w" "server w' = server w"
    "requests w' = requests w \<or>
         (requests w' = requests w @ [get_table_url t l] \<and>
          is_file (fs w') (csv_path_of ?cp t l) \<and>
          lookup (fs w') (zip_path_of ?cp t l) = None)"
    by blast+
qed

lemma makedirs_unblocked: "\<not> blocked r p \<Longrightarrow> \<exists>r1. makedirs r p = Inr r1"
  using makedirs_blocked [of r p] by (cases "makedirs r p") auto

lemma fetch_client_error:
  assumes "makedirs (fs w) td = Inr r1"
    and "server w (get_table_url t l) = Reply st reason rurl body"
    and "400 \<le> st" and "st < 500"
  shows "fst (fetch w t l zp td csv) =
     Inl (Error HTTPError
       (digits st @ '' Client Error: '' @ reason @ '' for url: '' @ rurl))"
  using assms by (simp add: fetch_def requests_get_def Let_def raise_for_status_def)

lemma digits_404: "digits 404 = ''404''"
  by code_simp

lemma get_table_Inl:
  "download_table w t cd l = (Inl e, w1) \<Longrightarrow> get_table w t cd l = (Inl (wrap_error t e), w1)"
  by (simp add: get_table_def)

lemma get_table_Inr:
  "download_table w t cd l = (Inr p, w1) \<Longrightarrow>
   get_table w t cd l =
     (case read_csv (fs w1) p (delimiter_of l) of
        Inl e \<Rightarrow> (Inl (wrap_error t e), w1)
      | Inr df \<Rightarrow> (Inr df, w1))"
  by (simp add: get_table_def Let_def)

lemma sublist_wrap:
  "sublist ''Error fetching table'' (str_error (wrap_error t e))"
  "sublist t (str_error (wrap_error t e))"
  "sublist (str_error e) (str_error (wrap_error t e))"
proof -
  have "str_error (wrap_error t e) = [] @ ''Error fetching table'' @ ('' '' @ t @ '': '' @ str_error e)"
    by (simp add: wrap_error_def)
  then show "sublist ''Error fetching table'' (str_error (wrap_error t e))"
    unfolding sublist_def by blast
  have "str_error (wrap_error t e) = ''Error fetching table '' @ t @ ('': '' @ str_error e)"
    by (simp add: wrap_error_def)
  then show "sublist t (str_error (wrap_error t e))" unfolding sublist_def by blast
  have "str_error (wrap_error t e) = (''Error fetching table '' @ t @ '': '') @ str_error e @ []"
    by (simp add: wrap_error_def)
  then show "sublist (str_error e) (str_error (wrap_error t e))" unfolding sublist_def by blast
qed

lemma get_table_failure:
  assumes "fst (get_table w t cd l) = Inl e'"
  shows "\<exists>e. e' = wrap_error t e \<and>
           (fst (download_table w t cd l) = Inl e \<or>
            (\<exists>p. fst (download_table w t cd l) = Inr p \<and>
                 read_csv (fs (snd (download_table w t cd l))) p (delimiter_of l) = Inl e))"
proof (cases "download_table w t cd l")
  case (Pair res w1)
  show ?thesis
  proof (cases res)
    case (Inl e)
    with Pair assms show ?thesis by (auto simp: get_table_Inl)
  next
    case (Inr p)
    with Pair assms show ?thesis
      by (cases "read_csv (fs w1) p (delimiter_of l)") (auto simp: get_table_Inr)
  qed
qed

lemma default_cache_dir: "joinpath p ''.statscan_cache'' = p @ [''.statscan_cache'']"
  by (simp add: joinpath_def Path_def)

lemma get_cache_dir_blocked:
  "blocked (fs w) (cache_dir_of w c) \<Longrightarrow> \<exists>e. get_cache_dir w c = (Inl e, w)"
  using makedirs_blocked [of "fs w" "cache_dir_of w c"]
  by (auto simp: get_cache_dir_def Let_def)

lemma get_cache_dir_unblocked:
  assumes "\<not> blocked (fs w) (cache_dir_of w c)"
  shows "\<exists>w1. get_cache_dir w c = (Inr (cache_dir_of w c), w1) \<and>
           (\<forall>q. prefix q (cache_dir_of w c) \<longrightarrow> is_dir (fs w1) q) \<and>
           (\<forall>q. \<not> prefix q (cache_dir_of w c) \<longrightarrow> lookup (fs w1) q = lookup (fs w) q) \<and>
           home w1 = home w \<and> server w1 = server w \<and> requests w1 = requests w \<and>
           get_cache_dir w1 c = (Inr (cache_dir_of w c), w1)"
proof -
  from makedirs_unblocked [OF assms] obtain r1 where
    mk: "makedirs (fs w) (cache_dir_of w c) = Inr r1" ..
  let ?w1 = "w\<lparr>fs := r1\<rparr>"
  have run: "get_cache_dir w c = (Inr (cache_dir_of w c), ?w1)"
    by (simp add: get_cache_dir_def mk)
  have above: "\<forall>q. prefix q (cache_dir_of w c) \<longrightarrow> is_dir (fs ?w1) q"
    using makedirs_above [OF mk] by simp
  have frame: "\<forall>q. \<not> prefix q (cache_dir_of w c) \<longrightarrow> lookup (fs ?w1) q = lookup (fs w) q"
    using makedirs_frame [OF mk] by simp
  have cd: "cache_dir_of ?w1 c = cache_dir_of w c" by (rule cache_dir_of_home) simp
  have "is_dir (fs ?w1) (cache_dir_of ?w1 c)" using above cd by simp
  from get_cache_dir_existing [OF this] cd
  have again: "get_cache_dir ?w1 c = (Inr (cache_dir_of w c), ?w1)" by simp
  from run above frame again show ?thesis by (intro exI [of _ ?w1]) simp
qed

lemma download_table_fetched:
  assumes pl: "plain t" "plain l"
    and sa: "simple_archives w (get_table_url t l)"
    and run: "download_table w t cd l = (Inr p, w')"
    and rq: "requests w' \<noteq> requests w"
  shows "\<exists>w1 ms f. get_cache_dir w cd = (Inr (cache_dir_of w cd), w1) \<and>
           fetchable w1 (cache_dir_of w cd) t l ms \<and> find_csv (namelist ms) = Some f"
proof -
  let ?cp = "cache_dir_of w cd"
  let ?e = "entry_name t l"
  note paths = paths_plain [OF pl, of ?cp]
  from download_table_Inr [OF run] obtain w1 where
    cache: "get_cache_dir w cd = (Inr ?cp, w1)" by blast
  note c = get_cache_dir_Inr [OF cache]
  have miss: "\<not> path_exists (fs w1) (csv_path_of ?cp t l)"
  proof
    assume "path_exists (fs w1) (csv_path_of ?cp t l)"
    from download_table_hit [OF cache this] run have "w' = w1" by simp
    with c(6) rq show False by simp
  qed
  from download_table_miss [OF cache miss] run
  have f: "fetch w1 t l (?cp @ [?e @ ''.zip'']) (?cp @ [?e]) (?cp @ [?e, ?e @ ''.csv'']) = (Inr p, w')"
    by (simp add: paths)
  have "simple_archives w1 (get_table_url t l)"
    using sa c(5) by (simp add: simple_archives_def)
  from fetch_inv [OF f c(3) entry_neq_zip this] obtain st reason rurl ms g where
    srv: "server w1 (get_table_url t l) = Reply st reason rurl (ZipBytes ms)"
    and st: "\<not> (400 \<le> st \<and> st < 600)"
    and tdf: "\<not> is_file (fs w1) (?cp @ [?e])" and zd: "\<not> is_dir (fs w1) (?cp @ [?e @ ''.zip''])"
    and names: "\<forall>n\<in>set (namelist ms). simple_name n \<and> \<not> is_dir (fs w1) (?cp @ [?e, n])"
    and g: "find_csv (namelist ms) = Some g" by blast
  have "fetchable w1 ?cp t l ms"
    using pl miss tdf zd srv st names by (auto simp: fetchable_def paths list_all_iff)
  with cache g show ?thesis by blast
qed

lemma download_table_requests:
  "requests (snd (download_table w t cd l)) = requests w \<or>
   requests (snd (download_table w t cd l)) = requests w @ [get_table_url t l]"
proof (cases "get_cache_dir w cd")
  case (Pair res w1)
  show ?thesis
  proof (cases res)
    case (Inl e)
    with Pair have "w1 = w"
      by (auto simp: get_cache_dir_def Let_def split: sum.splits)
    with Pair Inl show ?thesis by (simp add: download_table_def)
  next
    case (Inr cp)
    with Pair have cache: "get_cache_dir w cd = (Inr cp, w1)" by simp
    note c = get_cache_dir_Inr [OF cache]
    show ?thesis
    proof (cases "path_exists (fs w1) (csv_path_of cp t l)")
      case True
      from download_table_hit [OF cache True] c(6) show ?thesis by simp
    next
      case False
      note miss = download_table_miss [OF cache False, of ]
      show ?thesis
      proof (cases "makedirs (fs w1) (table_dir_of cp t l)")
        case (Inl e)
        then show ?thesis using miss c(6) by (simp add: fetch_def)
      next
        case (Inr r1)
        from fetch_requests [OF Inr] miss c(6) show ?thesis by simp
      qed
    qed
  qed
qed

section \<open>The example worlds evaluated\<close>

lemma example_cache_dir:
  "get_cache_dir example_world (Some ''/tmp/cache'') = (Inr [''tmp'', ''cache''], example_world)"
  by (simp add: get_cache_dir_def cache_dir_of_def Path_def example_world_def)

lemma example_fetchable:
  "fetchable example_world [''tmp'', ''cache''] ''14-10-0287'' ''eng'' example_archive"
  by (simp add: fetchable_def plain_def simple_name_def path_exists_def is_file_def is_dir_def
      csv_path_of_def table_dir_of_def zip_path_of_def joinpath_def Path_def
      get_table_url_def base_url_def clean_id_def py_replace_del_def
      example_world_def example_server_def example_archive_def namelist_def)

lemma example_find_csv: "find_csv (namelist example_archive) = Some ''14100287.csv''"
  by (simp add: example_archive_def namelist_def endswith_def lower_def lower_char_def)

lemma example_no_csv_fetchable:
  "fetchable example_world [''tmp'', ''cache''] ''99-10-0001'' ''eng'' [(''readme.txt'', ''no data'')]"
  by (simp add: fetchable_def plain_def simple_name_def path_exists_def is_file_def is_dir_def
      csv_path_of_def table_dir_of_def zip_path_of_def joinpath_def Path_def
      get_table_url_def base_url_def clean_id_def py_replace_del_def
      example_world_def example_server_def namelist_def)

lemma example_no_csv: "find_csv (namelist [(''readme.txt'', ''no data'')]) = None"
  by (simp add: namelist_def endswith_def lower_def lower_char_def)

lemma semicolon_cache_dir:
  "get_cache_dir semicolon_world (Some ''/tmp/cache'') = (Inr [''tmp'', ''cache''], semicolon_world)"
  by (simp add: get_cache_dir_def cache_dir_of_def Path_def semicolon_world_def)

lemma example_simple_archives:
  "simple_archives example_world (get_table_url ''14-10-0287'' ''eng'')"
  by (simp add: simple_archives_def example_world_def example_server_def example_archive_def
      namelist_def simple_name_def get_table_url_def base_url_def clean_id_def py_replace_del_def)

lemma example_paths:
  "csv_path_of [''tmp'', ''cache''] ''14-10-0287'' ''eng'' =
      [''tmp'', ''cache'', ''14-10-0287-eng'', ''14-10-0287-eng.csv'']"
  "table_dir_of [''tmp'', ''cache''] ''14-10-0287'' ''eng'' = [''tmp'', ''cache'', ''14-10-0287-eng'']"
  "zip_path_of [''tmp'', ''cache''] ''14-10-0287'' ''eng'' = [''tmp'', ''cache'', ''14-10-0287-eng.zip'']"
  "csv_path_of [''tmp'', ''cache''] ''14100287'' ''eng'' =
      [''tmp'', ''cache'', ''14100287-eng'', ''14100287-eng.csv'']"
  "table_dir_of [''tmp'', ''cache''] ''14100287'' ''eng'' = [''tmp'', ''cache'', ''14100287-eng'']"
  by (simp_all add: csv_path_of_def table_dir_of_def zip_path_of_def joinpath_def Path_def)

lemma example_url:
  "get_table_url ''14-10-0287'' ''eng'' = ''https://www150.statcan.gc.ca/n1/tbl/csv/14100287-eng.zip''"
  "get_table_url ''14100287'' ''eng'' = ''https://www150.statcan.gc.ca/n1/tbl/csv/14100287-eng.zip''"
  by (simp_all add: get_table_url_def base_url_def clean_id_def py_replace_del_def)

lemma example_404:
  "\<not> path_exists (fs example_world) (csv_path_of [''tmp'', ''cache''] ''invalid-table'' ''eng'')"
  "\<not> blocked (fs example_world) (table_dir_of [''tmp'', ''cache''] ''invalid-table'' ''eng'')"
  "server example_world (get_table_url ''invalid-table'' ''eng'') = Reply 404 ''Not Found''
     ''https://www150.statcan.gc.ca/n1/tbl/csv/invalidtable-eng.zip'' (Bytes [])"
  "get_table_url ''invalid-table'' ''eng'' =
     ''https://www150.statcan.gc.ca/n1/tbl/csv/invalidtable-eng.zip''"
  by (simp_all add: path_exists_def blocked_def is_file_def csv_path_of_def table_dir_of_def
      joinpath_def Path_def get_table_url_def base_url_def clean_id_def py_replace_del_def
      example_world_def example_server_def)

lemma example_empty_csv:
  "download_table empty_csv_world ''14-10-0287'' (Some ''/tmp/cache'') ''eng'' =
     (Inr [''tmp'', ''cache'', ''14-10-0287-eng'', ''14-10-0287-eng.csv''], empty_csv_world)"
  "read_csv (fs empty_csv_world) [''tmp'', ''cache'', ''14-10-0287-eng'', ''14-10-0287-eng.csv'']
     (delimiter_of ''eng'') = Inl (Error NoDataError ''empty CSV'')"
proof -
  have pl: "plain ''14-10-0287''" "plain ''eng''" by (simp_all add: plain_def)
  have cd: "cache_dir_of empty_csv_world (Some ''/tmp/cache'') = [''tmp'', ''cache'']"
    by (simp add: cache_dir_of_def Path_def)
  have "path_exists (fs empty_csv_world)
      (csv_path_of (cache_dir_of empty_csv_world (Some ''/tmp/cache'')) ''14-10-0287'' ''eng'')"
    unfolding cd example_paths by (simp add: path_exists_def empty_csv_world_def)
  from download_table_cached [OF pl this]
  show "download_table empty_csv_world ''14-10-0287'' (Some ''/tmp/cache'') ''eng'' =
     (Inr [''tmp'', ''cache'', ''14-10-0287-eng'', ''14-10-0287-eng.csv''], empty_csv_world)"
    by (simp add: cd example_paths)
  show "read_csv (fs empty_csv_world) [''tmp'', ''cache'', ''14-10-0287-eng'', ''14-10-0287-eng.csv'']
     (delimiter_of ''eng'') = Inl (Error NoDataError ''empty CSV'')"
    by (simp add: read_csv_def parse_csv_def splitlines_def empty_csv_world_def)
qed

lemma semicolon_cached:
  "download_table semicolon_world ''14-10-0287'' (Some ''/tmp/cache'') ''fra'' =
     (Inr [''tmp'', ''cache'', ''14-10-0287-fra'', ''14-10-0287-fra.csv''], semicolon_world)"
  "download_table semicolon_world ''14-10-0287'' (Some ''/tmp/cache'') ''eng'' =
     (Inr [''tmp'', ''cache'', ''14-10-0287-eng'', ''14-10-0287-eng.csv''], semicolon_world)"
proof -
  have pl: "plain ''14-10-0287''" "plain ''eng''" "plain ''fra''" by (simp_all add: plain_def)
  have cd: "cache_dir_of semicolon_world (Some ''/tmp/cache'') = [''tmp'', ''cache'']"
    by (simp add: cache_dir_of_def Path_def)
  have fra: "csv_path_of [''tmp'', ''cache''] ''14-10-0287'' ''fra'' =
      [''tmp'', ''cache'', ''14-10-0287-fra'', ''14-10-0287-fra.csv'']"
    by (simp add: csv_path_of_def table_dir_of_def joinpath_def Path_def)
  have "path_exists (fs semicolon_world)
      (csv_path_of (cache_dir_of semicolon_world (Some ''/tmp/cache'')) ''14-10-0287'' ''fra'')"
    unfolding cd fra by (simp add: path_exists_def semicolon_world_def)
  from download_table_cached [OF pl(1,3) this]
  show "download_table semicolon_world ''14-10-0287'' (Some ''/tmp/cache'') ''fra'' =
     (Inr [''tmp'', ''cache'', ''14-10-0287-fra'', ''14-10-0287-fra.csv''], semicolon_world)"
    by (simp add: cd fra)
  have "path_exists (fs semicolon_world)
      (csv_path_of (cache_dir_of semicolon_world (Some ''/tmp/cache'')) ''14-10-0287'' ''eng'')"
    unfolding cd example_paths by (simp add: path_exists_def semicolon_world_def)
  from download_table_cached [OF pl(1,2) this]
  show "download_table semicolon_world ''14-10-0287'' (Some ''/tmp/cache'') ''eng'' =
     (Inr [''tmp'', ''cache'', ''14-10-0287-eng'', ''14-10-0287-eng.csv''], semicolon_world)"
    by (simp add: cd example_paths)
qed

lemma semicolon_parse:
  "parse_csv (CHR '';'') semicolon_csv =
     Inr ([''REF_DATE'', ''GEO'', ''VALUE''], [[''2020-01'', ''Canada'', ''100'']])"
  "parse_csv (CHR '','') semicolon_csv =
     Inr ([''REF_DATE;GEO;VALUE''], [[''2020-01;Canada;100'']])"
  by (simp_all add: parse_csv_def splitlines_def semicolon_csv_def newline_def pad_row_def)

lemma semicolon_read:
  "read_csv (fs semicolon_world) [''tmp'', ''cache'', ''14-10-0287-fra'', ''14-10-0287-fra.csv'']
     (CHR '';'') = Inr ([''REF_DATE'', ''GEO'', ''VALUE''], [[''2020-01'', ''Canada'', ''100'']])"
  "read_csv (fs semicolon_world) [''tmp'', ''cache'', ''14-10-0287-eng'', ''14-10-0287-eng.csv'']
     (CHR '','') = Inr ([''REF_DATE;GEO;VALUE''], [[''2020-01;Canada;100'']])"
  by (simp_all add: read_csv_def semicolon_world_def semicolon_parse)

lemma example_new_cache_dir:
  "cache_dir_of example_world (Some ''/tmp/statscan/new'') = [''tmp'', ''statscan'', ''new'']"
  "\<not> blocked (fs example_world) [''tmp'', ''statscan'', ''new'']"
  "\<not> is_dir (fs example_world) [''tmp'', ''statscan'']"
  "cache_dir_of example_world None = [''home'', ''user'', ''.statscan_cache'']"
  by (simp_all add: cache_dir_of_def Path_def blocked_def is_file_def is_dir_def example_world_def
      default_cache_dir)

lemma blocked_cache_dir:
  "cache_dir_of blocked_world (Some ''/tmp/cache'') = [''tmp'', ''cache'']"
  "blocked (fs blocked_world) [''tmp'', ''cache'']"
  by (simp_all add: cache_dir_of_def Path_def blocked_def is_file_def blocked_world_def)

section \<open>The claims\<close>

text \<open>
  C2: \<^verbatim>\<open>get_table_url\<close> removes every hyphen and space from the identifier
  before it composes the URL, which is the fixed base, the stripped identifier, a hyphen,
  the language and \<^verbatim>\<open>.zip\<close>; identifiers that differ only in hyphens and spaces give the
  same URL, as the three spellings of table 21100033 do.
\<close>

theorem get_table_url_strips:
  "get_table_url table_id language = base_url @ strip_separators table_id @ ''-'' @ language @ ''.zip''
   \<and> CHR ''-'' \<notin> set (strip_separators table_id)
   \<and> CHR '' '' \<notin> set (strip_separators table_id)
   \<and> (strip_separators other_id = strip_separators table_id
        \<longrightarrow> get_table_url other_id language = get_table_url table_id language)
   \<and> get_table_url ''21-10-0033'' ''eng'' = ''https://www150.statcan.gc.ca/n1/tbl/csv/21100033-eng.zip''
   \<and> get_table_url ''21 10 0033'' ''eng'' = ''https://www150.statcan.gc.ca/n1/tbl/csv/21100033-eng.zip''
   \<and> get_table_url ''21100033'' ''eng'' = ''https://www150.statcan.gc.ca/n1/tbl/csv/21100033-eng.zip''
   \<and> endswith (get_table_url ''21-10-0033'' ''eng'') ''21100033-eng.zip''"
proof -
  have form: "\<And>t. get_table_url t language = base_url @ strip_separators t @ ''-'' @ language @ ''.zip''"
    by (simp add: get_table_url_def clean_id_strip)
  have ex: "get_table_url ''21-10-0033'' ''eng'' = ''https://www150.statcan.gc.ca/n1/tbl/csv/21100033-eng.zip''"
     "get_table_url ''21 10 0033'' ''eng'' = ''https://www150.statcan.gc.ca/n1/tbl/csv/21100033-eng.zip''"
     "get_table_url ''21100033'' ''eng'' = ''https://www150.statcan.gc.ca/n1/tbl/csv/21100033-eng.zip''"
    by (simp_all add: get_table_url_def clean_id_def py_replace_del_def base_url_def)
  have e: "endswith (get_table_url ''21-10-0033'' ''eng'') ''21100033-eng.zip''"
    by (simp add: ex endswith_def)
  show ?thesis using form ex e by (simp add: strip_separators_def)
qed

theorem get_table_url_strips_witness:
  "strip_separators ''21 10 0033'' = strip_separators ''21-10-0033''
   \<and> get_table_url ''21 10 0033'' ''fra'' = get_table_url ''21-10-0033'' ''fra''"
  using get_table_url_strips [of "''21-10-0033''" "''fra''" "''21 10 0033''"]
  by (simp add: strip_separators_def)

text \<open>
  C5: on a cache miss where the archive has a CSV member, \<^verbatim>\<open>download_table\<close>
  is to return the canonical path, with the content of the member in the file
  at that path and the archive file deleted. It does so when the names of the
  members are simple (lemma \<open>fetchable_found\<close>), but not for every archive:
  \<^verbatim>\<open>extractall\<close> writes a member under its sanitised name, without a leading
  \<^verbatim>\<open>/\<close>, while the path that is renamed is \<^verbatim>\<open>table_dir / csv_filename\<close>
  with the name as the archive has it, which is an absolute path for such a
  name. For the archive whose only member is \<^verbatim>\<open>/14100287.csv\<close>, the
  member is extracted to \<^verbatim>\<open>14100287.csv\<close> in the entry directory, the
  rename of \<^verbatim>\<open>/14100287.csv\<close> raises \<^verbatim>\<open>FileNotFoundError\<close>, no file is at
  the canonical path, and the archive file stays on disk.
\<close>

theorem download_table_absolute_member:
  "namelist [(''/14100287.csv'', example_csv)] = [''/14100287.csv''] \<and>
   find_csv [''/14100287.csv''] = Some ''/14100287.csv'' \<and>
   arcname ''/14100287.csv'' = [''14100287.csv''] \<and>
   joinpath [''tmp'', ''cache'', ''14-10-0287-eng''] ''/14100287.csv'' = [''14100287.csv''] \<and>
   server absolute_member_world (get_table_url ''14-10-0287'' ''eng'') =
     Reply 200 ''OK'' ''https://www150.statcan.gc.ca/n1/tbl/csv/14100287-eng.zip''
       (ZipBytes [(''/14100287.csv'', example_csv)]) \<and>
   fst (download_table absolute_member_world ''14-10-0287'' (Some ''/tmp/cache'') ''eng'') =
     Inl (Error FileNotFoundError ''[Errno 2] No such file or directory'') \<and>
   lookup (fs (snd (download_table absolute_member_world ''14-10-0287'' (Some ''/tmp/cache'') ''eng'')))
     [''tmp'', ''cache'', ''14-10-0287-eng'', ''14100287.csv''] = Some (File (Bytes example_csv)) \<and>
   lookup (fs (snd (download_table absolute_member_world ''14-10-0287'' (Some ''/tmp/cache'') ''eng'')))
     [''tmp'', ''cache'', ''14-10-0287-eng'', ''14-10-0287-eng.csv''] = None \<and>
   lookup (fs (snd (download_table absolute_member_world ''14-10-0287'' (Some ''/tmp/cache'') ''eng'')))
     [''tmp'', ''cache'', ''14-10-0287-eng.zip''] =
       Some (File (ZipBytes [(''/14100287.csv'', example_csv)]))"
  by code_simp

text \<open>
  C4: the loop over the member names of the archive selects the first name
  that ends in \<^verbatim>\<open>.csv\<close> when lowered, and selects none exactly when no name
  does. On a cache miss that reaches the archive, \<^verbatim>\<open>download_table\<close>
  fails with the \<^verbatim>\<open>ValueError\<close> "No CSV file found in the zip file for
  table ..." when no member is selected, and otherwise returns the canonical
  path, whose file holds the content of the selected member.
\<close>

theorem find_csv_first_match:
  "(find_csv names = Some f \<longrightarrow>
      (\<exists>pre post. names = pre @ f # post \<and> endswith (lower f) ''.csv'' \<and>
         (\<forall>n\<in>set pre. \<not> endswith (lower n) ''.csv''))) \<and>
   (find_csv names = None \<longleftrightarrow> (\<forall>n\<in>set names. \<not> endswith (lower n) ''.csv'')) \<and>
   find_csv [''readme.txt'', ''Data.CSV'', ''other.csv''] = Some ''Data.CSV'' \<and>
   (get_cache_dir w cache_dir = (Inr cache_path, w1) \<longrightarrow>
    fetchable w1 cache_path table_id language ms \<longrightarrow>
      (find_csv (namelist ms) = None \<longrightarrow>
         fst (download_table w table_id cache_dir language) =
           Inl (Error ValueError (''No CSV file found in the zip file for table '' @ table_id))) \<and>
      (\<forall>csv_filename. find_csv (namelist ms) = Some csv_filename \<longrightarrow>
         fst (download_table w table_id cache_dir language) =
           Inr (csv_path_of cache_path table_id language) \<and>
         (\<exists>data. getinfo ms csv_filename = Some data \<and>
            lookup (fs (snd (download_table w table_id cache_dir language)))
              (csv_path_of cache_path table_id language) = Some (File (Bytes data)))))"
proof (intro conjI impI allI)
  assume "find_csv names = Some f"
  from find_csv_Some [OF this]
  show "\<exists>pre post. names = pre @ f # post \<and> endswith (lower f) ''.csv'' \<and>
         (\<forall>n\<in>set pre. \<not> endswith (lower n) ''.csv'')" by blast
next
  show "find_csv names = None \<longleftrightarrow> (\<forall>n\<in>set names. \<not> endswith (lower n) ''.csv'')"
    by (rule find_csv_None)
next
  show "find_csv [''readme.txt'', ''Data.CSV'', ''other.csv''] = Some ''Data.CSV''"
    by (simp add: endswith_def lower_def lower_char_def)
next
  assume "get_cache_dir w cache_dir = (Inr cache_path, w1)"
    "fetchable w1 cache_path table_id language ms" "find_csv (namelist ms) = None"
  from fetchable_no_csv [OF this]
  show "fst (download_table w table_id cache_dir language) =
           Inl (Error ValueError (''No CSV file found in the zip file for table '' @ table_id))"
    by (auto simp: no_csv_error_def)
next
  fix csv_filename
  assume a: "get_cache_dir w cache_dir = (Inr cache_path, w1)"
    "fetchable w1 cache_path table_id language ms" "find_csv (namelist ms) = Some csv_filename"
  from fetchable_found [OF a]
  show "fst (download_table w table_id cache_dir language) =
           Inr (csv_path_of cache_path table_id language)" by auto
  from fetchable_found [OF a]
  show "\<exists>data. getinfo ms csv_filename = Some data \<and>
            lookup (fs (snd (download_table w table_id cache_dir language)))
              (csv_path_of cache_path table_id language) = Some (File (Bytes data))" by auto
qed

theorem find_csv_first_match_witness:
  "find_csv [''readme.txt'', ''Data.CSV'', ''other.csv''] = Some ''Data.CSV'' \<and>
   [''readme.txt'', ''Data.CSV'', ''other.csv''] = [''readme.txt''] @ ''Data.CSV'' # [''other.csv''] \<and>
   \<not> endswith (lower ''readme.txt'') ''.csv'' \<and>
   get_cache_dir example_world (Some ''/tmp/cache'') = (Inr [''tmp'', ''cache''], example_world) \<and>
   fetchable example_world [''tmp'', ''cache''] ''99-10-0001'' ''eng'' [(''readme.txt'', ''no data'')] \<and>
   find_csv (namelist [(''readme.txt'', ''no data'')]) = None \<and>
   fst (download_table example_world ''99-10-0001'' (Some ''/tmp/cache'') ''eng'') =
     Inl (Error ValueError ''No CSV file found in the zip file for table 99-10-0001'')"
  using find_csv_first_match [where names = "[''readme.txt'', ''Data.CSV'', ''other.csv'']"
      and f = "''Data.CSV''" and w = example_world and ?cache_dir = "Some ''/tmp/cache''"
      and cache_path = "[''tmp'', ''cache'']" and ?w1.0 = example_world
      and table_id = "''99-10-0001''" and language = "''eng''"
      and ms = "[(''readme.txt'', ''no data'')]"]
    example_cache_dir example_no_csv_fetchable example_no_csv
  by (simp add: endswith_def lower_def lower_char_def)

text \<open>
  C10: when no member of the downloaded archive has a name ending in
  \<^verbatim>\<open>.csv\<close>, \<^verbatim>\<open>download_table\<close> raises after the request has been
  issued, the archive written and every member extracted, and before the
  archive is deleted: in the state it leaves, the archive file exists with the
  downloaded content, the entry directory exists, and every member is a file
  in it. The file system is not put back: if the archive file did not exist
  before the call, the file system after the call differs from the one before.
\<close>

theorem no_csv_leaves_archive_and_members:
  assumes cache: "get_cache_dir w cache_dir = (Inr cache_path, w1)"
    and miss: "fetchable w1 cache_path table_id language ms"
    and none: "find_csv (namelist ms) = None"
  shows "\<exists>w'. download_table w table_id cache_dir language =
             (Inl (Error ValueError (''No CSV file found in the zip file for table '' @ table_id)), w') \<and>
           requests w' = requests w @ [get_table_url table_id language] \<and>
           lookup (fs w') (zip_path_of cache_path table_id language) = Some (File (ZipBytes ms)) \<and>
           is_dir (fs w') (table_dir_of cache_path table_id language) \<and>
           (\<forall>name\<in>set (namelist ms). \<exists>data. (name, data) \<in> set ms \<and>
               lookup (fs w') (table_dir_of cache_path table_id language @ [name]) =
                 Some (File (Bytes data))) \<and>
           (\<not> path_exists (fs w) (zip_path_of cache_path table_id language) \<longrightarrow> fs w' \<noteq> fs w)"
proof -
  from fetchable_no_csv [OF cache miss none] obtain w' where
    run: "download_table w table_id cache_dir language = (Inl (no_csv_error table_id), w')"
    and zip: "lookup (fs w') (zip_path_of cache_path table_id language) = Some (File (ZipBytes ms))"
    and td: "is_dir (fs w') (table_dir_of cache_path table_id language)"
    and rq: "requests w' = requests w @ [get_table_url table_id language]"
    and mem: "\<And>n d. n \<in> set (namelist ms) \<Longrightarrow> getinfo ms n = Some d \<Longrightarrow>
        lookup (fs w') (table_dir_of cache_path table_id language @ [n]) = Some (File (Bytes d))"
    by blast
  have all: "\<exists>d. (name, d) \<in> set ms \<and>
      lookup (fs w') (table_dir_of cache_path table_id language @ [name]) = Some (File (Bytes d))"
    if n: "name \<in> set (namelist ms)" for name
  proof -
    from n obtain d where d: "getinfo ms name = Some d" using getinfo_namelist by blast
    from mem [OF n d] getinfo_member [OF d] show ?thesis by blast
  qed
  have changed: "fs w' \<noteq> fs w" if "\<not> path_exists (fs w) (zip_path_of cache_path table_id language)"
    using that zip by (auto simp: path_exists_def)
  from run zip td rq all changed show ?thesis
    by (intro exI [of _ w']) (auto simp: no_csv_error_def)
qed

theorem no_csv_leaves_archive_and_members_witness:
  "get_cache_dir example_world (Some ''/tmp/cache'') = (Inr [''tmp'', ''cache''], example_world) \<and>
   fetchable example_world [''tmp'', ''cache''] ''99-10-0001'' ''eng'' [(''readme.txt'', ''no data'')] \<and>
   find_csv (namelist [(''readme.txt'', ''no data'')]) = None \<and>
   \<not> path_exists (fs example_world) [''tmp'', ''cache'', ''99-10-0001-eng.zip''] \<and>
   (\<exists>w'. download_table example_world ''99-10-0001'' (Some ''/tmp/cache'') ''eng'' =
           (Inl (Error ValueError ''No CSV file found in the zip file for table 99-10-0001''), w') \<and>
         requests w' = [''https://www150.statcan.gc.ca/n1/tbl/csv/99100001-eng.zip''] \<and>
         lookup (fs w') [''tmp'', ''cache'', ''99-10-0001-eng.zip''] =
           Some (File (ZipBytes [(''readme.txt'', ''no data'')])) \<and>
         is_dir (fs w') [''tmp'', ''cache'', ''99-10-0001-eng''] \<and>
         lookup (fs w') [''tmp'', ''cache'', ''99-10-0001-eng'', ''readme.txt''] =
           Some (File (Bytes ''no data'')) \<and>
         fs w' \<noteq> fs example_world)"
proof -
  have paths:
    "table_dir_of [''tmp'', ''cache''] ''99-10-0001'' ''eng'' = [''tmp'', ''cache'', ''99-10-0001-eng'']"
    "zip_path_of [''tmp'', ''cache''] ''99-10-0001'' ''eng'' = [''tmp'', ''cache'', ''99-10-0001-eng.zip'']"
    by (simp_all add: table_dir_of_def zip_path_of_def joinpath_def Path_def)
  have absent: "\<not> path_exists (fs example_world) [''tmp'', ''cache'', ''99-10-0001-eng.zip'']"
    by (simp add: path_exists_def example_world_def)
  have url: "get_table_url ''99-10-0001'' ''eng'' =
      ''https://www150.statcan.gc.ca/n1/tbl/csv/99100001-eng.zip''"
    by (simp add: get_table_url_def base_url_def clean_id_def py_replace_del_def)
  from no_csv_leaves_archive_and_members
    [OF example_cache_dir example_no_csv_fetchable example_no_csv]
  show ?thesis
    using example_cache_dir example_no_csv_fetchable example_no_csv absent
    by (auto simp: paths url example_world_def namelist_def)
qed

text \<open>
  C1, as amended: if the canonical CSV file of an identifier and a language
  exists once the cache directory is resolved, \<^verbatim>\<open>download_table\<close> returns
  its path and issues no request; for a plain identifier and language the
  file's existence before the call is enough, and the call leaves the world as
  it is. When a call has returned a path, a second call with the same
  arguments returns the same path without any request (for plain identifier
  and language, and simple names of the members of an archive that the server
  sends). Every call, whatever its outcome, issues at most one request, to the
  URL of the table.
\<close>

theorem cache_hit_no_network:
  "(get_cache_dir w cache_dir = (Inr cache_path, w1) \<longrightarrow>
    path_exists (fs w1) (csv_path_of cache_path table_id language) \<longrightarrow>
      download_table w table_id cache_dir language =
        (Inr (csv_path_of cache_path table_id language), w1) \<and>
      requests w1 = requests w) \<and>
   (plain table_id \<longrightarrow> plain language \<longrightarrow>
    path_exists (fs w) (csv_path_of (cache_dir_of w cache_dir) table_id language) \<longrightarrow>
      download_table w table_id cache_dir language =
        (Inr (csv_path_of (cache_dir_of w cache_dir) table_id language), w)) \<and>
   (plain table_id \<longrightarrow> plain language \<longrightarrow>
    simple_archives w (get_table_url table_id language) \<longrightarrow>
      (\<forall>p w2. download_table w table_id cache_dir language = (Inr p, w2) \<longrightarrow>
         download_table w2 table_id cache_dir language = (Inr p, w2) \<and>
         (requests w2 = requests w \<or>
          requests w2 = requests w @ [get_table_url table_id language]))) \<and>
   (requests (snd (download_table w table_id cache_dir language)) = requests w \<or>
    requests (snd (download_table w table_id cache_dir language)) =
      requests w @ [get_table_url table_id language])"
proof (intro conjI impI allI)
  assume cache: "get_cache_dir w cache_dir = (Inr cache_path, w1)"
    and hit: "path_exists (fs w1) (csv_path_of cache_path table_id language)"
  show "download_table w table_id cache_dir language =
      (Inr (csv_path_of cache_path table_id language), w1)"
    using download_table_hit [OF cache hit] .
  show "requests w1 = requests w" using get_cache_dir_Inr(6) [OF cache] .
next
  assume "plain table_id" "plain language"
    "path_exists (fs w) (csv_path_of (cache_dir_of w cache_dir) table_id language)"
  from download_table_cached [OF this]
  show "download_table w table_id cache_dir language =
      (Inr (csv_path_of (cache_dir_of w cache_dir) table_id language), w)" .
next
  fix p w2
  assume pl: "plain table_id" "plain language"
    and sa: "simple_archives w (get_table_url table_id language)"
    and run: "download_table w table_id cache_dir language = (Inr p, w2)"
  note s = download_table_success [OF pl sa run]
  have cd: "cache_dir_of w2 cache_dir = cache_dir_of w cache_dir"
    using s(3) by (rule cache_dir_of_home)
  from download_table_cached [OF pl, of w2 cache_dir] s(1,2) cd
  show "download_table w2 table_id cache_dir language = (Inr p, w2)" by simp
  from s(5) show "requests w2 = requests w \<or>
      requests w2 = requests w @ [get_table_url table_id language]" by blast
next
  show "requests (snd (download_table w table_id cache_dir language)) = requests w \<or>
    requests (snd (download_table w table_id cache_dir language)) =
      requests w @ [get_table_url table_id language]"
    by (rule download_table_requests)
qed

theorem cache_hit_no_network_witness:
  "plain ''14-10-0287'' \<and> plain ''eng'' \<and>
   path_exists (fs semicolon_world)
     (csv_path_of (cache_dir_of semicolon_world (Some ''/tmp/cache'')) ''14-10-0287'' ''eng'') \<and>
   download_table semicolon_world ''14-10-0287'' (Some ''/tmp/cache'') ''eng'' =
     (Inr [''tmp'', ''cache'', ''14-10-0287-eng'', ''14-10-0287-eng.csv''], semicolon_world) \<and>
   simple_archives example_world (get_table_url ''14-10-0287'' ''eng'') \<and>
   (\<exists>w1. download_table example_world ''14-10-0287'' (Some ''/tmp/cache'') ''eng'' =
           (Inr [''tmp'', ''cache'', ''14-10-0287-eng'', ''14-10-0287-eng.csv''], w1) \<and>
         download_table w1 ''14-10-0287'' (Some ''/tmp/cache'') ''eng'' =
           (Inr [''tmp'', ''cache'', ''14-10-0287-eng'', ''14-10-0287-eng.csv''], w1) \<and>
         requests w1 = [''https://www150.statcan.gc.ca/n1/tbl/csv/14100287-eng.zip''])"
proof -
  have pl: "plain ''14-10-0287''" "plain ''eng''" by (simp_all add: plain_def)
  have cd: "cache_dir_of semicolon_world (Some ''/tmp/cache'') = [''tmp'', ''cache'']"
    by (simp add: cache_dir_of_def Path_def)
  have ex: "path_exists (fs semicolon_world)
     (csv_path_of (cache_dir_of semicolon_world (Some ''/tmp/cache'')) ''14-10-0287'' ''eng'')"
    unfolding cd example_paths by (simp add: path_exists_def semicolon_world_def)
  note hit = cache_hit_no_network [where w = semicolon_world and ?cache_dir = "Some ''/tmp/cache''"
      and table_id = "''14-10-0287''" and language = "''eng''"]
  from hit pl ex
  have cached: "download_table semicolon_world ''14-10-0287'' (Some ''/tmp/cache'') ''eng'' =
     (Inr [''tmp'', ''cache'', ''14-10-0287-eng'', ''14-10-0287-eng.csv''], semicolon_world)"
    by (simp add: cd example_paths)
  from fetchable_found [OF example_cache_dir example_fetchable example_find_csv]
  obtain w1 where
    first: "download_table example_world ''14-10-0287'' (Some ''/tmp/cache'') ''eng'' =
           (Inr [''tmp'', ''cache'', ''14-10-0287-eng'', ''14-10-0287-eng.csv''], w1)"
    and rq: "requests w1 = [''https://www150.statcan.gc.ca/n1/tbl/csv/14100287-eng.zip'']"
    by (auto simp: example_paths example_url example_world_def)
  note twice = cache_hit_no_network [where w = example_world and ?cache_dir = "Some ''/tmp/cache''"
      and table_id = "''14-10-0287''" and language = "''eng''"]
  from twice pl example_simple_archives first
  have "download_table w1 ''14-10-0287'' (Some ''/tmp/cache'') ''eng'' =
           (Inr [''tmp'', ''cache'', ''14-10-0287-eng'', ''14-10-0287-eng.csv''], w1)"
    by blast
  with pl ex cached first rq example_simple_archives show ?thesis by blast
qed

text \<open>
  C1 as stated fails for two calls of which the first one fails: a failed
  call leaves no file in the cache, so the second call issues the request
  again. For a table that the server answers with 404, two calls of
  \<^verbatim>\<open>download_table\<close>, and of \<^verbatim>\<open>get_table\<close>, issue two requests.
\<close>

theorem cache_hit_no_network_counterexample:
  "fst (download_table example_world ''invalid-table'' (Some ''/tmp/cache'') ''eng'') =
     Inl (Error HTTPError (''404 Client Error: Not Found for url: '' @
            ''https://www150.statcan.gc.ca/n1/tbl/csv/invalidtable-eng.zip'')) \<and>
   requests (snd (download_table example_world ''invalid-table'' (Some ''/tmp/cache'') ''eng'')) =
     [''https://www150.statcan.gc.ca/n1/tbl/csv/invalidtable-eng.zip''] \<and>
   fst (download_table
          (snd (download_table example_world ''invalid-table'' (Some ''/tmp/cache'') ''eng''))
          ''invalid-table'' (Some ''/tmp/cache'') ''eng'') =
     Inl (Error HTTPError (''404 Client Error: Not Found for url: '' @
            ''https://www150.statcan.gc.ca/n1/tbl/csv/invalidtable-eng.zip'')) \<and>
   requests (snd (download_table
          (snd (download_table example_world ''invalid-table'' (Some ''/tmp/cache'') ''eng''))
          ''invalid-table'' (Some ''/tmp/cache'') ''eng'')) =
     [''https://www150.statcan.gc.ca/n1/tbl/csv/invalidtable-eng.zip'',
      ''https://www150.statcan.gc.ca/n1/tbl/csv/invalidtable-eng.zip''] \<and>
   requests (snd (get_table
          (snd (get_table example_world ''invalid-table'' (Some ''/tmp/cache'') ''eng''))
          ''invalid-table'' (Some ''/tmp/cache'') ''eng'')) =
     [''https://www150.statcan.gc.ca/n1/tbl/csv/invalidtable-eng.zip'',
      ''https://www150.statcan.gc.ca/n1/tbl/csv/invalidtable-eng.zip'']"
  by code_simp

text \<open>
  C7, as amended: after a call of \<^verbatim>\<open>download_table\<close> that has issued a
  request and returned a path, the cache directory holds the subdirectory
  named \<^verbatim>\<open><identifier>-<language>\<close>, the returned path is the regular file
  \<^verbatim>\<open><identifier>-<language>.csv\<close> in it, and the archive file does not exist.
  The selected member is no longer at its extracted path when its name is not
  the canonical one, and every other member of the archive is a file of the
  subdirectory, next to the canonical file. Two pairs of identifier and
  language name the same subdirectory only if they are the same pair, provided
  the languages have no hyphen.
\<close>

theorem fetch_layout:
  assumes "plain table_id" and "plain language"
    and "simple_archives w (get_table_url table_id language)"
    and "download_table w table_id cache_dir language = (Inr p, w')"
    and "requests w' \<noteq> requests w"
  shows "p = cache_dir_of w cache_dir @
               [entry_name table_id language, entry_name table_id language @ ''.csv''] \<and>
         table_dir_of (cache_dir_of w cache_dir) table_id language =
           cache_dir_of w cache_dir @ [entry_name table_id language] \<and>
         is_dir (fs w') (cache_dir_of w cache_dir) \<and>
         is_dir (fs w') (cache_dir_of w cache_dir @ [entry_name table_id language]) \<and>
         is_file (fs w') p \<and>
         \<not> path_exists (fs w') (zip_path_of (cache_dir_of w cache_dir) table_id language) \<and>
         (\<exists>status reason response_url ms csv_filename.
            server w (get_table_url table_id language) =
              Reply status reason response_url (ZipBytes ms) \<and>
            find_csv (namelist ms) = Some csv_filename \<and>
            (csv_filename \<noteq> entry_name table_id language @ ''.csv'' \<longrightarrow>
               \<not> path_exists (fs w')
                    (cache_dir_of w cache_dir @ [entry_name table_id language, csv_filename])) \<and>
            (\<forall>n\<in>set (namelist ms). n \<noteq> csv_filename \<longrightarrow>
               is_file (fs w') (cache_dir_of w cache_dir @ [entry_name table_id language, n]))) \<and>
         (\<forall>t' l'. CHR ''-'' \<notin> set language \<longrightarrow> CHR ''-'' \<notin> set l' \<longrightarrow>
            (entry_name t' l' = entry_name table_id language \<longleftrightarrow> t' = table_id \<and> l' = language))"
proof -
  let ?cp = "cache_dir_of w cache_dir"
  let ?e = "entry_name table_id language"
  note paths = paths_plain [OF assms(1,2), of ?cp]
  from download_table_fetched [OF assms] obtain w1 ms f where
    cache: "get_cache_dir w cache_dir = (Inr ?cp, w1)"
    and fb: "fetchable w1 ?cp table_id language ms"
    and f: "find_csv (namelist ms) = Some f" by blast
  from fetchable_found [OF cache fb f] assms(4) obtain data where
    p: "p = ?cp @ [?e, ?e @ ''.csv'']"
    and csv: "lookup (fs w') (?cp @ [?e, ?e @ ''.csv'']) = Some (File (Bytes data))"
    and gone: "f \<noteq> ?e @ ''.csv'' \<longrightarrow> lookup (fs w') (?cp @ [?e, f]) = None"
    and zip: "lookup (fs w') (zip_path_of ?cp table_id language) = None"
    and td: "is_dir (fs w') (?cp @ [?e])"
    and rest: "\<forall>n d. n \<in> set (namelist ms) \<longrightarrow> n \<noteq> f \<longrightarrow> n \<noteq> ?e @ ''.csv'' \<longrightarrow>
        getinfo ms n = Some d \<longrightarrow> lookup (fs w') (?cp @ [?e, n]) = Some (File (Bytes d))"
    by (auto simp: paths)
  from csv have isf: "is_file (fs w') (?cp @ [?e, ?e @ ''.csv''])" by (simp add: is_file_def)
  from td have cp: "is_dir (fs w') ?cp" by (rule is_dir_prefix)
  from fb obtain st reason rurl where
    "server w1 (get_table_url table_id language) = Reply st reason rurl (ZipBytes ms)"
    by (auto simp: fetchable_def)
  then have srv: "server w (get_table_url table_id language) = Reply st reason rurl (ZipBytes ms)"
    using get_cache_dir_Inr(5) [OF cache] by simp
  have others: "\<forall>n\<in>set (namelist ms). n \<noteq> f \<longrightarrow> is_file (fs w') (?cp @ [?e, n])"
  proof (intro ballI impI)
    fix n assume n: "n \<in> set (namelist ms)" and nf: "n \<noteq> f"
    show "is_file (fs w') (?cp @ [?e, n])"
    proof (cases "n = ?e @ ''.csv''")
      case True
      with isf show ?thesis by simp
    next
      case False
      from getinfo_namelist [OF n] obtain d where "getinfo ms n = Some d" ..
      with rest n nf False have "lookup (fs w') (?cp @ [?e, n]) = Some (File (Bytes d))" by blast
      then show ?thesis by (simp add: is_file_def)
    qed
  qed
  have ex: "\<exists>status reason response_url ms csv_filename.
            server w (get_table_url table_id language) =
              Reply status reason response_url (ZipBytes ms) \<and>
            find_csv (namelist ms) = Some csv_filename \<and>
            (csv_filename \<noteq> ?e @ ''.csv'' \<longrightarrow> \<not> path_exists (fs w') (?cp @ [?e, csv_filename])) \<and>
            (\<forall>n\<in>set (namelist ms). n \<noteq> csv_filename \<longrightarrow> is_file (fs w') (?cp @ [?e, n]))"
    using srv f gone others by (auto simp: path_exists_def)
  have inj: "\<forall>t' l'. CHR ''-'' \<notin> set language \<longrightarrow> CHR ''-'' \<notin> set l' \<longrightarrow>
            (entry_name t' l' = ?e \<longleftrightarrow> t' = table_id \<and> l' = language)"
    using entry_name_unique by blast
  from p isf td cp zip ex inj show ?thesis
    by (simp add: paths path_exists_def)
qed

theorem fetch_layout_witness:
  "plain ''14-10-0287'' \<and> plain ''eng'' \<and>
   simple_archives example_world (get_table_url ''14-10-0287'' ''eng'') \<and>
   (\<exists>w'. download_table example_world ''14-10-0287'' (Some ''/tmp/cache'') ''eng'' =
           (Inr [''tmp'', ''cache'', ''14-10-0287-eng'', ''14-10-0287-eng.csv''], w') \<and>
         requests w' \<noteq> requests example_world \<and>
         is_dir (fs w') [''tmp'', ''cache''] \<and>
         is_dir (fs w') [''tmp'', ''cache'', ''14-10-0287-eng''] \<and>
         is_file (fs w') [''tmp'', ''cache'', ''14-10-0287-eng'', ''14-10-0287-eng.csv''] \<and>
         is_file (fs w') [''tmp'', ''cache'', ''14-10-0287-eng'', ''14100287_MetaData.csv''] \<and>
         \<not> path_exists (fs w') [''tmp'', ''cache'', ''14-10-0287-eng'', ''14100287.csv''] \<and>
         \<not> path_exists (fs w') [''tmp'', ''cache'', ''14-10-0287-eng.zip''])"
proof -
  have pl: "plain ''14-10-0287''" "plain ''eng''" by (simp_all add: plain_def)
  have cd: "cache_dir_of example_world (Some ''/tmp/cache'') = [''tmp'', ''cache'']"
    by (simp add: cache_dir_of_def Path_def)
  have srv: "server example_world (get_table_url ''14-10-0287'' ''eng'') =
      Reply 200 ''OK'' (get_table_url ''14-10-0287'' ''eng'') (ZipBytes example_archive)"
    by (simp add: example_url example_world_def example_server_def)
  have names: "namelist example_archive = [''14100287.csv'', ''14100287_MetaData.csv'']"
    by (simp add: namelist_def example_archive_def)
  from fetchable_found [OF example_cache_dir example_fetchable example_find_csv]
  obtain w' where
    run: "download_table example_world ''14-10-0287'' (Some ''/tmp/cache'') ''eng'' =
           (Inr [''tmp'', ''cache'', ''14-10-0287-eng'', ''14-10-0287-eng.csv''], w')"
    and rq: "requests w' = requests example_world @ [get_table_url ''14-10-0287'' ''eng'']"
    by (auto simp: example_paths)
  from rq have ne: "requests w' \<noteq> requests example_world" by simp
  note layout = fetch_layout [OF pl example_simple_archives run ne]
  from layout have dirs: "is_dir (fs w') [''tmp'', ''cache'']"
    "is_dir (fs w') [''tmp'', ''cache'', ''14-10-0287-eng'']"
    "is_file (fs w') [''tmp'', ''cache'', ''14-10-0287-eng'', ''14-10-0287-eng.csv'']"
    "\<not> path_exists (fs w') [''tmp'', ''cache'', ''14-10-0287-eng.zip'']"
    by (simp_all add: cd example_paths entry_name_def)
  note ex = layout [THEN conjunct2, THEN conjunct2, THEN conjunct2, THEN conjunct2,
      THEN conjunct2, THEN conjunct2, THEN conjunct1]
  from ex obtain st reason rurl ms f where
    s: "server example_world (get_table_url ''14-10-0287'' ''eng'') =
          Reply st reason rurl (ZipBytes ms)"
    and f: "find_csv (namelist ms) = Some f"
    and gone: "f \<noteq> entry_name ''14-10-0287'' ''eng'' @ ''.csv'' \<longrightarrow>
        \<not> path_exists (fs w')
             (cache_dir_of example_world (Some ''/tmp/cache'') @
                [entry_name ''14-10-0287'' ''eng'', f])"
    and others: "\<forall>n\<in>set (namelist ms). n \<noteq> f \<longrightarrow>
        is_file (fs w')
          (cache_dir_of example_world (Some ''/tmp/cache'') @ [entry_name ''14-10-0287'' ''eng'', n])"
    by (elim exE conjE) (rule that, assumption+)
  from s srv have ms: "ms = example_archive" by simp
  from f ms example_find_csv have fn: "f = ''14100287.csv''" by simp
  from gone have g: "\<not> path_exists (fs w') [''tmp'', ''cache'', ''14-10-0287-eng'', ''14100287.csv'']"
    by (simp add: fn cd entry_name_def)
  from others have o: "is_file (fs w') [''tmp'', ''cache'', ''14-10-0287-eng'', ''14100287_MetaData.csv'']"
    by (simp add: fn ms names cd entry_name_def)
  from pl example_simple_archives run ne dirs g o show ?thesis
    by (intro conjI exI [of _ w']) assumption+
qed

text \<open>
  C7 as stated fails: the archive of table 14-10-0287 has a second member,
  which stays in the subdirectory with the canonical file, so that the
  subdirectory has two files after the fetch; and the pairs (a-b, c) and
  (a, b-c) have the same subdirectory.
\<close>

theorem fetch_layout_counterexample:
  "fst (download_table example_world ''14-10-0287'' (Some ''/tmp/cache'') ''eng'') =
     Inr [''tmp'', ''cache'', ''14-10-0287-eng'', ''14-10-0287-eng.csv''] \<and>
   is_file (fs (snd (download_table example_world ''14-10-0287'' (Some ''/tmp/cache'') ''eng'')))
     [''tmp'', ''cache'', ''14-10-0287-eng'', ''14-10-0287-eng.csv''] \<and>
   is_file (fs (snd (download_table example_world ''14-10-0287'' (Some ''/tmp/cache'') ''eng'')))
     [''tmp'', ''cache'', ''14-10-0287-eng'', ''14100287_MetaData.csv''] \<and>
   length (listdir (fs (snd (download_table example_world ''14-10-0287'' (Some ''/tmp/cache'') ''eng'')))
     [''tmp'', ''cache'', ''14-10-0287-eng'']) = 2 \<and>
   (''a-b'', ''c'') \<noteq> (''a'', ''b-c'') \<and>
   entry_name ''a-b'' ''c'' = entry_name ''a'' ''b-c'' \<and>
   table_dir_of [''tmp'', ''cache''] ''a-b'' ''c'' = table_dir_of [''tmp'', ''cache''] ''a'' ''b-c''"
  by code_simp

text \<open>
  C9: the cache paths are built from the identifier as given, the URL from
  the identifier without its separators. Two different identifiers that are
  equal up to hyphens and spaces have the same URL and different entry
  directories and CSV paths; so with the file cached under one spelling and
  nothing under the other, a call with the first spelling issues no request
  and a call with the other spelling issues the request for the common URL.
\<close>

theorem cache_paths_use_raw_identifier:
  assumes "plain a" and "plain b" and "plain language"
    and "a \<noteq> b" and "strip_separators a = strip_separators b"
  shows "get_table_url a language = get_table_url b language \<and>
         table_dir_of cache_path a language \<noteq> table_dir_of cache_path b language \<and>
         csv_path_of cache_path a language \<noteq> csv_path_of cache_path b language \<and>
         (get_cache_dir w cache_dir = (Inr cache_path, w1) \<longrightarrow>
          path_exists (fs w1) (csv_path_of cache_path a language) \<longrightarrow>
          \<not> path_exists (fs w1) (csv_path_of cache_path b language) \<longrightarrow>
          \<not> is_file (fs w1) (table_dir_of cache_path b language) \<longrightarrow>
            download_table w a cache_dir language = (Inr (csv_path_of cache_path a language), w1) \<and>
            requests w1 = requests w \<and>
            requests (snd (download_table w b cache_dir language)) =
              requests w @ [get_table_url a language])"
proof (intro conjI impI)
  show url: "get_table_url a language = get_table_url b language"
    using assms(5) by (simp add: get_table_url_def clean_id_strip)
  show "table_dir_of cache_path a language \<noteq> table_dir_of cache_path b language"
    using assms(4) by (simp add: paths_plain assms(1-3) entry_name_def)
  show "csv_path_of cache_path a language \<noteq> csv_path_of cache_path b language"
    using assms(4) by (simp add: paths_plain assms(1-3) entry_name_def)
  assume cache: "get_cache_dir w cache_dir = (Inr cache_path, w1)"
    and hit: "path_exists (fs w1) (csv_path_of cache_path a language)"
    and miss: "\<not> path_exists (fs w1) (csv_path_of cache_path b language)"
    and free: "\<not> is_file (fs w1) (table_dir_of cache_path b language)"
  show "download_table w a cache_dir language = (Inr (csv_path_of cache_path a language), w1)"
    using download_table_hit [OF cache hit] .
  show "requests w1 = requests w" using get_cache_dir_Inr(6) [OF cache] .
  have cp: "is_dir (fs w1) cache_path" using get_cache_dir_Inr(3) [OF cache] .
  from makedirs_entry [OF cp, of "entry_name b language"] free
  obtain r1 where mk: "makedirs (fs w1) (table_dir_of cache_path b language) = Inr r1"
    by (auto simp: paths_plain assms(1-3))
  show "requests (snd (download_table w b cache_dir language)) =
      requests w @ [get_table_url a language]"
    using download_table_miss [OF cache miss] fetch_requests [OF mk]
      get_cache_dir_Inr(6) [OF cache] url by simp
qed

theorem cache_paths_use_raw_identifier_witness:
  "plain ''14-10-0287'' \<and> plain ''14100287'' \<and> plain ''eng'' \<and> ''14-10-0287'' \<noteq> ''14100287'' \<and>
   strip_separators ''14-10-0287'' = strip_separators ''14100287'' \<and>
   get_cache_dir semicolon_world (Some ''/tmp/cache'') = (Inr [''tmp'', ''cache''], semicolon_world) \<and>
   path_exists (fs semicolon_world) (csv_path_of [''tmp'', ''cache''] ''14-10-0287'' ''eng'') \<and>
   \<not> path_exists (fs semicolon_world) (csv_path_of [''tmp'', ''cache''] ''14100287'' ''eng'') \<and>
   \<not> is_file (fs semicolon_world) (table_dir_of [''tmp'', ''cache''] ''14100287'' ''eng'') \<and>
   get_table_url ''14-10-0287'' ''eng'' = get_table_url ''14100287'' ''eng'' \<and>
   csv_path_of [''tmp'', ''cache''] ''14-10-0287'' ''eng'' \<noteq>
     csv_path_of [''tmp'', ''cache''] ''14100287'' ''eng'' \<and>
   requests (snd (download_table semicolon_world ''14-10-0287'' (Some ''/tmp/cache'') ''eng'')) = [] \<and>
   requests (snd (download_table semicolon_world ''14100287'' (Some ''/tmp/cache'') ''eng'')) =
     [''https://www150.statcan.gc.ca/n1/tbl/csv/14100287-eng.zip'']"
proof -
  have pl: "plain ''14-10-0287''" "plain ''14100287''" "plain ''eng''" by (simp_all add: plain_def)
  have ne: "''14-10-0287'' \<noteq> ''14100287''" by simp
  have st: "strip_separators ''14-10-0287'' = strip_separators ''14100287''"
    by (simp add: strip_separators_def)
  have hit: "path_exists (fs semicolon_world) (csv_path_of [''tmp'', ''cache''] ''14-10-0287'' ''eng'')"
    unfolding example_paths by (simp add: path_exists_def semicolon_world_def)
  have miss: "\<not> path_exists (fs semicolon_world) (csv_path_of [''tmp'', ''cache''] ''14100287'' ''eng'')"
    unfolding example_paths by (simp add: path_exists_def semicolon_world_def)
  have free: "\<not> is_file (fs semicolon_world) (table_dir_of [''tmp'', ''cache''] ''14100287'' ''eng'')"
    unfolding example_paths by (simp add: is_file_def semicolon_world_def)
  have rq: "requests semicolon_world = []" by (simp add: semicolon_world_def)
  from cache_paths_use_raw_identifier [OF pl ne st, of "[''tmp'', ''cache'']" semicolon_world
      "Some ''/tmp/cache''" semicolon_world]
  show ?thesis using pl ne st semicolon_cache_dir hit miss free rq
    by (simp add: example_url)
qed

text \<open>
  C3, as amended: whenever \<^verbatim>\<open>download_table\<close> or the parsing of the file
  fails, \<^verbatim>\<open>get_table\<close> raises an exception of the class \<^verbatim>\<open>Exception\<close>
  whose message is "Error fetching table ", the identifier, ": " and the
  description of the original failure; every failure of \<^verbatim>\<open>get_table\<close> is
  of this form. The class of the raised exception does not depend on the
  original failure, which is kept, with its class, as the context of the
  raised exception. For a 404 answer of the server the message is "Error
  fetching table <id>: 404 Client Error: <reason> for url: <url>", with the URL
  of the response.
\<close>

theorem get_table_wraps_failures:
  "(download_table w table_id cache_dir language = (Inl e, w1) \<longrightarrow>
      get_table w table_id cache_dir language =
        (Inl (Chained Exception
                (''Error fetching table '' @ table_id @ '': '' @ str_error e) e), w1)) \<and>
   (download_table w table_id cache_dir language = (Inr p, w1) \<longrightarrow>
    read_csv (fs w1) p (delimiter_of language) = Inl e \<longrightarrow>
      get_table w table_id cache_dir language =
        (Inl (Chained Exception
                (''Error fetching table '' @ table_id @ '': '' @ str_error e) e), w1)) \<and>
   (fst (get_table w table_id cache_dir language) = Inl e' \<longrightarrow>
      exc_class_of e' = Exception \<and>
      sublist ''Error fetching table'' (str_error e') \<and> sublist table_id (str_error e') \<and>
      (\<exists>e0. context_of e' = Some e0 \<and>
            str_error e' = ''Error fetching table '' @ table_id @ '': '' @ str_error e0 \<and>
            sublist (str_error e0) (str_error e') \<and>
            (fst (download_table w table_id cache_dir language) = Inl e0 \<or>
             (\<exists>p. fst (download_table w table_id cache_dir language) = Inr p \<and>
                  read_csv (fs (snd (download_table w table_id cache_dir language))) p
                    (delimiter_of language) = Inl e0)))) \<and>
   exc_class_of (wrap_error table_id e) = Exception \<and>
   context_of (wrap_error table_id e) = Some e \<and>
   map_option exc_class_of (context_of (wrap_error table_id e)) = Some (exc_class_of e) \<and>
   (get_cache_dir w cache_dir = (Inr cache_path, w1) \<longrightarrow>
    \<not> path_exists (fs w1) (csv_path_of cache_path table_id language) \<longrightarrow>
    \<not> blocked (fs w1) (table_dir_of cache_path table_id language) \<longrightarrow>
    server w (get_table_url table_id language) = Reply 404 reason response_url body \<longrightarrow>
      fst (get_table w table_id cache_dir language) =
        Inl (Chained Exception
               (''Error fetching table '' @ table_id @ '': 404 Client Error: '' @
                  reason @ '' for url: '' @ response_url)
               (Error HTTPError (''404 Client Error: '' @ reason @ '' for url: '' @ response_url))))"
proof (intro conjI impI)
  assume "download_table w table_id cache_dir language = (Inl e, w1)"
  from get_table_Inl [OF this]
  show "get_table w table_id cache_dir language =
        (Inl (Chained Exception
                (''Error fetching table '' @ table_id @ '': '' @ str_error e) e), w1)"
    by (simp add: wrap_error_def)
next
  assume "download_table w table_id cache_dir language = (Inr p, w1)"
    and "read_csv (fs w1) p (delimiter_of language) = Inl e"
  then show "get_table w table_id cache_dir language =
        (Inl (Chained Exception
                (''Error fetching table '' @ table_id @ '': '' @ str_error e) e), w1)"
    by (simp add: get_table_Inr wrap_error_def)
next
  assume "fst (get_table w table_id cache_dir language) = Inl e'"
  from get_table_failure [OF this] obtain e0 where
    e': "e' = wrap_error table_id e0"
    and src: "fst (download_table w table_id cache_dir language) = Inl e0 \<or>
            (\<exists>p. fst (download_table w table_id cache_dir language) = Inr p \<and>
                 read_csv (fs (snd (download_table w table_id cache_dir language))) p
                   (delimiter_of language) = Inl e0)"
    by blast
  show "exc_class_of e' = Exception" by (simp add: e' wrap_error_def)
  show "sublist ''Error fetching table'' (str_error e')" unfolding e' by (rule sublist_wrap)
  show "sublist table_id (str_error e')" unfolding e' by (rule sublist_wrap)
  have "context_of e' = Some e0" by (simp add: e' wrap_error_def)
  moreover have "str_error e' = ''Error fetching table '' @ table_id @ '': '' @ str_error e0"
    by (simp add: e' wrap_error_def)
  moreover have "sublist (str_error e0) (str_error e')" unfolding e' by (rule sublist_wrap)
  ultimately show "\<exists>e0. context_of e' = Some e0 \<and>
            str_error e' = ''Error fetching table '' @ table_id @ '': '' @ str_error e0 \<and>
            sublist (str_error e0) (str_error e') \<and>
            (fst (download_table w table_id cache_dir language) = Inl e0 \<or>
             (\<exists>p. fst (download_table w table_id cache_dir language) = Inr p \<and>
                  read_csv (fs (snd (download_table w table_id cache_dir language))) p
                    (delimiter_of language) = Inl e0))"
    using src by blast
next
  show "exc_class_of (wrap_error table_id e) = Exception"
    "context_of (wrap_error table_id e) = Some e"
    "map_option exc_class_of (context_of (wrap_error table_id e)) = Some (exc_class_of e)"
    by (simp_all add: wrap_error_def)
next
  assume cache: "get_cache_dir w cache_dir = (Inr cache_path, w1)"
    and miss: "\<not> path_exists (fs w1) (csv_path_of cache_path table_id language)"
    and free: "\<not> blocked (fs w1) (table_dir_of cache_path table_id language)"
    and srv: "server w (get_table_url table_id language) = Reply 404 reason response_url body"
  from makedirs_unblocked [OF free] obtain r1 where
    mk: "makedirs (fs w1) (table_dir_of cache_path table_id language) = Inr r1" ..
  have srv1: "server w1 (get_table_url table_id language) = Reply 404 reason response_url body"
    using srv get_cache_dir_Inr(5) [OF cache] by simp
  have "fst (download_table w table_id cache_dir language) =
      Inl (Error HTTPError (''404 Client Error: '' @ reason @ '' for url: '' @ response_url))"
    using download_table_miss [OF cache miss] fetch_client_error [OF mk srv1]
    by (simp add: digits_404)
  then show "fst (get_table w table_id cache_dir language) =
        Inl (Chained Exception
               (''Error fetching table '' @ table_id @ '': 404 Client Error: '' @
                  reason @ '' for url: '' @ response_url)
               (Error HTTPError (''404 Client Error: '' @ reason @ '' for url: '' @ response_url)))"
    by (cases "download_table w table_id cache_dir language")
      (simp add: get_table_Inl wrap_error_def)
qed

theorem get_table_wraps_failures_witness:
  "get_cache_dir example_world (Some ''/tmp/cache'') = (Inr [''tmp'', ''cache''], example_world) \<and>
   \<not> path_exists (fs example_world) (csv_path_of [''tmp'', ''cache''] ''invalid-table'' ''eng'') \<and>
   \<not> blocked (fs example_world) (table_dir_of [''tmp'', ''cache''] ''invalid-table'' ''eng'') \<and>
   server example_world (get_table_url ''invalid-table'' ''eng'') =
     Reply 404 ''Not Found'' ''https://www150.statcan.gc.ca/n1/tbl/csv/invalidtable-eng.zip'' (Bytes []) \<and>
   fst (get_table example_world ''invalid-table'' (Some ''/tmp/cache'') ''eng'') =
     Inl (Chained Exception
            (''Error fetching table invalid-table: 404 Client Error: Not Found for url: '' @
             ''https://www150.statcan.gc.ca/n1/tbl/csv/invalidtable-eng.zip'')
            (Error HTTPError (''404 Client Error: Not Found for url: '' @
               ''https://www150.statcan.gc.ca/n1/tbl/csv/invalidtable-eng.zip''))) \<and>
   sublist ''invalid-table''
     (''Error fetching table invalid-table: 404 Client Error: Not Found for url: '' @
      ''https://www150.statcan.gc.ca/n1/tbl/csv/invalidtable-eng.zip'') \<and>
   download_table empty_csv_world ''14-10-0287'' (Some ''/tmp/cache'') ''eng'' =
     (Inr [''tmp'', ''cache'', ''14-10-0287-eng'', ''14-10-0287-eng.csv''], empty_csv_world) \<and>
   read_csv (fs empty_csv_world) [''tmp'', ''cache'', ''14-10-0287-eng'', ''14-10-0287-eng.csv'']
     (delimiter_of ''eng'') = Inl (Error NoDataError ''empty CSV'') \<and>
   get_table empty_csv_world ''14-10-0287'' (Some ''/tmp/cache'') ''eng'' =
     (Inl (Chained Exception ''Error fetching table 14-10-0287: empty CSV''
             (Error NoDataError ''empty CSV'')), empty_csv_world)"
proof -
  note t404 = get_table_wraps_failures [where w = example_world and table_id = "''invalid-table''"
      and ?cache_dir = "Some ''/tmp/cache''" and language = "''eng''"
      and cache_path = "[''tmp'', ''cache'']" and ?w1.0 = example_world
      and reason = "''Not Found''" and body = "Bytes []"
      and response_url = "''https://www150.statcan.gc.ca/n1/tbl/csv/invalidtable-eng.zip''"
      and e' = "Chained Exception
            (''Error fetching table invalid-table: 404 Client Error: Not Found for url: '' @
             ''https://www150.statcan.gc.ca/n1/tbl/csv/invalidtable-eng.zip'')
            (Error HTTPError (''404 Client Error: Not Found for url: '' @
               ''https://www150.statcan.gc.ca/n1/tbl/csv/invalidtable-eng.zip''))"]
  note tparse = get_table_wraps_failures [where w = empty_csv_world and table_id = "''14-10-0287''"
      and ?cache_dir = "Some ''/tmp/cache''" and language = "''eng''"
      and ?w1.0 = empty_csv_world
      and p = "[''tmp'', ''cache'', ''14-10-0287-eng'', ''14-10-0287-eng.csv'']"
      and e = "Error NoDataError ''empty CSV''"]
  have a: "fst (get_table example_world ''invalid-table'' (Some ''/tmp/cache'') ''eng'') =
     Inl (Chained Exception
            (''Error fetching table invalid-table: 404 Client Error: Not Found for url: '' @
             ''https://www150.statcan.gc.ca/n1/tbl/csv/invalidtable-eng.zip'')
            (Error HTTPError (''404 Client Error: Not Found for url: '' @
               ''https://www150.statcan.gc.ca/n1/tbl/csv/invalidtable-eng.zip'')))"
    using t404 example_cache_dir example_404 by simp
  have b: "sublist ''invalid-table''
     (''Error fetching table invalid-table: 404 Client Error: Not Found for url: '' @
      ''https://www150.statcan.gc.ca/n1/tbl/csv/invalidtable-eng.zip'')"
    using t404 a by simp
  have c: "get_table empty_csv_world ''14-10-0287'' (Some ''/tmp/cache'') ''eng'' =
     (Inl (Chained Exception ''Error fetching table 14-10-0287: empty CSV''
             (Error NoDataError ''empty CSV'')), empty_csv_world)"
    using tparse example_empty_csv by simp
  from a b c example_cache_dir example_404(1-3) example_empty_csv show ?thesis
    by (intro conjI) assumption+
qed

text \<open>
  C3 as stated fails in its last part: the original failure is the context of
  the wrapped one, so its kind can be read from there (\<^verbatim>\<open>HTTPError\<close> for a
  404 answer, \<^verbatim>\<open>NoDataError\<close> for an empty file), and two failures of
  different kinds with the same description are wrapped into different
  exceptions with the same message.
\<close>

theorem get_table_wraps_failures_counterexample:
  "fst (get_table example_world ''invalid-table'' (Some ''/tmp/cache'') ''eng'') =
     Inl (Chained Exception
            (''Error fetching table invalid-table: 404 Client Error: Not Found for url: '' @
             ''https://www150.statcan.gc.ca/n1/tbl/csv/invalidtable-eng.zip'')
            (Error HTTPError (''404 Client Error: Not Found for url: '' @
               ''https://www150.statcan.gc.ca/n1/tbl/csv/invalidtable-eng.zip''))) \<and>
   map_option exc_class_of (context_of (Chained Exception
            (''Error fetching table invalid-table: 404 Client Error: Not Found for url: '' @
             ''https://www150.statcan.gc.ca/n1/tbl/csv/invalidtable-eng.zip'')
            (Error HTTPError (''404 Client Error: Not Found for url: '' @
               ''https://www150.statcan.gc.ca/n1/tbl/csv/invalidtable-eng.zip'')))) = Some HTTPError \<and>
   fst (get_table empty_csv_world ''14-10-0287'' (Some ''/tmp/cache'') ''eng'') =
     Inl (Chained Exception ''Error fetching table 14-10-0287: empty CSV''
            (Error NoDataError ''empty CSV'')) \<and>
   map_option exc_class_of (context_of (Chained Exception ''Error fetching table 14-10-0287: empty CSV''
            (Error NoDataError ''empty CSV''))) = Some NoDataError \<and>
   str_error (wrap_error ''1'' (Error ValueError ''x'')) = str_error (wrap_error ''1'' (Error KeyError ''x'')) \<and>
   wrap_error ''1'' (Error ValueError ''x'') \<noteq> wrap_error ''1'' (Error KeyError ''x'')"
  by code_simp

text \<open>
  C6: \<^verbatim>\<open>get_table\<close> parses the cached file with the semicolon as the
  delimiter if and only if the language is \<^verbatim>\<open>fra\<close>, and with the comma for
  \<^verbatim>\<open>eng\<close> and every other language. A cached file with semicolons yields
  its three columns under \<^verbatim>\<open>fra\<close> and a single column (holding the whole
  line) under \<^verbatim>\<open>eng\<close>.
\<close>

theorem delimiter_by_language:
  "(delimiter_of language = CHR '';'' \<longleftrightarrow> language = ''fra'') \<and>
   (language \<noteq> ''fra'' \<longrightarrow> delimiter_of language = CHR '','') \<and>
   delimiter_of ''eng'' = CHR '','' \<and>
   (download_table w table_id cache_dir language = (Inr p, w1) \<longrightarrow>
      get_table w table_id cache_dir language =
        (case read_csv (fs w1) p (if language = ''fra'' then CHR '';'' else CHR '','') of
           Inl e \<Rightarrow> (Inl (wrap_error table_id e), w1)
         | Inr df \<Rightarrow> (Inr df, w1))) \<and>
   fst (get_table semicolon_world ''14-10-0287'' (Some ''/tmp/cache'') ''fra'') =
     Inr ([''REF_DATE'', ''GEO'', ''VALUE''], [[''2020-01'', ''Canada'', ''100'']]) \<and>
   fst (get_table semicolon_world ''14-10-0287'' (Some ''/tmp/cache'') ''eng'') =
     Inr ([''REF_DATE;GEO;VALUE''], [[''2020-01;Canada;100'']])"
proof (intro conjI impI)
  show "delimiter_of language = CHR '';'' \<longleftrightarrow> language = ''fra''"
    by (simp add: delimiter_of_def)
  show "delimiter_of ''eng'' = CHR '',''" by (simp add: delimiter_of_def)
  show "fst (get_table semicolon_world ''14-10-0287'' (Some ''/tmp/cache'') ''fra'') =
     Inr ([''REF_DATE'', ''GEO'', ''VALUE''], [[''2020-01'', ''Canada'', ''100'']])"
    unfolding get_table_Inr [OF semicolon_cached(1)]
    by (simp add: delimiter_of_def semicolon_read)
  show "fst (get_table semicolon_world ''14-10-0287'' (Some ''/tmp/cache'') ''eng'') =
     Inr ([''REF_DATE;GEO;VALUE''], [[''2020-01;Canada;100'']])"
    unfolding get_table_Inr [OF semicolon_cached(2)]
    by (simp add: delimiter_of_def semicolon_read)
next
  assume "language \<noteq> ''fra''"
  then show "delimiter_of language = CHR '',''" by (simp add: delimiter_of_def)
next
  assume "download_table w table_id cache_dir language = (Inr p, w1)"
  from get_table_Inr [OF this]
  show "get_table w table_id cache_dir language =
        (case read_csv (fs w1) p (if language = ''fra'' then CHR '';'' else CHR '','') of
           Inl e \<Rightarrow> (Inl (wrap_error table_id e), w1)
         | Inr df \<Rightarrow> (Inr df, w1))"
    by (simp add: delimiter_of_def)
qed

theorem delimiter_by_language_witness:
  "''deu'' \<noteq> ''fra'' \<and> delimiter_of ''deu'' = CHR '','' \<and>
   download_table semicolon_world ''14-10-0287'' (Some ''/tmp/cache'') ''fra'' =
     (Inr [''tmp'', ''cache'', ''14-10-0287-fra'', ''14-10-0287-fra.csv''], semicolon_world) \<and>
   get_table semicolon_world ''14-10-0287'' (Some ''/tmp/cache'') ''fra'' =
     (Inr ([''REF_DATE'', ''GEO'', ''VALUE''], [[''2020-01'', ''Canada'', ''100'']]), semicolon_world)"
proof -
  have "delimiter_of ''deu'' = CHR '',''"
    using delimiter_by_language [where language = "''deu''"] by simp
  moreover have "get_table semicolon_world ''14-10-0287'' (Some ''/tmp/cache'') ''fra'' =
     (Inr ([''REF_DATE'', ''GEO'', ''VALUE''], [[''2020-01'', ''Canada'', ''100'']]), semicolon_world)"
    using delimiter_by_language [where w = semicolon_world and table_id = "''14-10-0287''"
        and ?cache_dir = "Some ''/tmp/cache''" and language = "''fra''" and ?w1.0 = semicolon_world
        and p = "[''tmp'', ''cache'', ''14-10-0287-fra'', ''14-10-0287-fra.csv'']"]
      semicolon_cached(1)
    by (simp add: semicolon_read)
  ultimately show ?thesis using semicolon_cached(1) by simp
qed

text \<open>
  C8, as amended: \<^verbatim>\<open>get_cache_dir\<close> resolves a non-empty custom string to
  the path it denotes, and no argument as well as the empty string to
  \<^verbatim>\<open>.statscan_cache\<close> in the home directory. For a path whose components are
  simple names (none is \<^verbatim>\<open>..\<close>): if a regular file is at that path or at
  one of its ancestors, it raises and changes nothing. Otherwise it returns
  the path, which is then a directory together with all its ancestors, while
  every other such path is as before; a second call returns the same path and
  changes nothing, and so does a call for a directory that exists already.
\<close>

theorem get_cache_dir_resolves:
  "cache_dir_of w None = home w @ [''.statscan_cache''] \<and>
   cache_dir_of w (Some []) = home w @ [''.statscan_cache''] \<and>
   (s \<noteq> [] \<longrightarrow> cache_dir_of w (Some s) = Path s) \<and>
   (valid_path (cache_dir_of w c) \<longrightarrow>
      (blocked (fs w) (cache_dir_of w c) \<longrightarrow> (\<exists>e. get_cache_dir w c = (Inl e, w))) \<and>
      (\<not> blocked (fs w) (cache_dir_of w c) \<longrightarrow>
         (\<exists>w1. get_cache_dir w c = (Inr (cache_dir_of w c), w1) \<and>
               (\<forall>q. prefix q (cache_dir_of w c) \<longrightarrow> is_dir (fs w1) q) \<and>
               (\<forall>q. valid_path q \<longrightarrow> \<not> prefix q (cache_dir_of w c) \<longrightarrow>
                    lookup (fs w1) q = lookup (fs w) q) \<and>
               home w1 = home w \<and> server w1 = server w \<and> requests w1 = requests w \<and>
               get_cache_dir w1 c = (Inr (cache_dir_of w c), w1))) \<and>
      (is_dir (fs w) (cache_dir_of w c) \<longrightarrow> get_cache_dir w c = (Inr (cache_dir_of w c), w)))"
proof (intro conjI impI)
  show "cache_dir_of w None = home w @ [''.statscan_cache'']"
    "cache_dir_of w (Some []) = home w @ [''.statscan_cache'']"
    by (simp_all add: cache_dir_of_def default_cache_dir)
next
  assume "s \<noteq> []"
  then show "cache_dir_of w (Some s) = Path s" by (simp add: cache_dir_of_def)
next
  assume "blocked (fs w) (cache_dir_of w c)"
  then show "\<exists>e. get_cache_dir w c = (Inl e, w)" by (rule get_cache_dir_blocked)
next
  assume "\<not> blocked (fs w) (cache_dir_of w c)"
  from get_cache_dir_unblocked [OF this]
  show "\<exists>w1. get_cache_dir w c = (Inr (cache_dir_of w c), w1) \<and>
            (\<forall>q. prefix q (cache_dir_of w c) \<longrightarrow> is_dir (fs w1) q) \<and>
            (\<forall>q. valid_path q \<longrightarrow> \<not> prefix q (cache_dir_of w c) \<longrightarrow>
                 lookup (fs w1) q = lookup (fs w) q) \<and>
            home w1 = home w \<and> server w1 = server w \<and> requests w1 = requests w \<and>
            get_cache_dir w1 c = (Inr (cache_dir_of w c), w1)"
    by blast
next
  assume "is_dir (fs w) (cache_dir_of w c)"
  then show "get_cache_dir w c = (Inr (cache_dir_of w c), w)" by (rule get_cache_dir_existing)
qed

theorem get_cache_dir_resolves_witness:
  "''/tmp/statscan/new'' \<noteq> [] \<and>
   cache_dir_of example_world (Some ''/tmp/statscan/new'') = [''tmp'', ''statscan'', ''new''] \<and>
   valid_path (cache_dir_of example_world (Some ''/tmp/statscan/new'')) \<and>
   \<not> blocked (fs example_world) (cache_dir_of example_world (Some ''/tmp/statscan/new'')) \<and>
   \<not> is_dir (fs example_world) [''tmp'', ''statscan''] \<and>
   valid_path [''tmp'', ''cache''] \<and>
   (\<exists>w1. get_cache_dir example_world (Some ''/tmp/statscan/new'') =
           (Inr [''tmp'', ''statscan'', ''new''], w1) \<and>
         is_dir (fs w1) [''tmp'', ''statscan''] \<and> is_dir (fs w1) [''tmp'', ''statscan'', ''new''] \<and>
         lookup (fs w1) [''tmp'', ''cache''] = lookup (fs example_world) [''tmp'', ''cache''] \<and>
         get_cache_dir w1 (Some ''/tmp/statscan/new'') = (Inr [''tmp'', ''statscan'', ''new''], w1)) \<and>
   valid_path (cache_dir_of blocked_world (Some ''/tmp/cache'')) \<and>
   blocked (fs blocked_world) (cache_dir_of blocked_world (Some ''/tmp/cache'')) \<and>
   (\<exists>e. get_cache_dir blocked_world (Some ''/tmp/cache'') = (Inl e, blocked_world)) \<and>
   valid_path (cache_dir_of example_world (Some ''/tmp/cache'')) \<and>
   is_dir (fs example_world) (cache_dir_of example_world (Some ''/tmp/cache'')) \<and>
   get_cache_dir example_world (Some ''/tmp/cache'') = (Inr [''tmp'', ''cache''], example_world)"
proof -
  have vp: "valid_path [''tmp'', ''statscan'', ''new'']" "valid_path [''tmp'', ''cache'']"
    by (simp_all add: valid_path_def simple_name_def)
  have cdb: "cache_dir_of blocked_world (Some ''/tmp/cache'') = [''tmp'', ''cache'']"
    by (simp add: cache_dir_of_def Path_def)
  have cd: "cache_dir_of example_world (Some ''/tmp/cache'') = [''tmp'', ''cache'']"
    by (simp add: cache_dir_of_def Path_def)
  note new = get_cache_dir_resolves [where w = example_world and s = "''/tmp/statscan/new''"
      and c = "Some ''/tmp/statscan/new''"]
  from new example_new_cache_dir vp obtain w1 where
    run: "get_cache_dir example_world (Some ''/tmp/statscan/new'') =
           (Inr [''tmp'', ''statscan'', ''new''], w1)"
    and above: "\<forall>q. prefix q [''tmp'', ''statscan'', ''new''] \<longrightarrow> is_dir (fs w1) q"
    and frame: "\<forall>q. valid_path q \<longrightarrow> \<not> prefix q [''tmp'', ''statscan'', ''new''] \<longrightarrow>
        lookup (fs w1) q = lookup (fs example_world) q"
    and again: "get_cache_dir w1 (Some ''/tmp/statscan/new'') =
        (Inr [''tmp'', ''statscan'', ''new''], w1)"
    by auto
  from above have d: "is_dir (fs w1) [''tmp'', ''statscan'']"
    "is_dir (fs w1) [''tmp'', ''statscan'', ''new'']" by simp_all
  from frame vp(2)
  have f: "lookup (fs w1) [''tmp'', ''cache''] = lookup (fs example_world) [''tmp'', ''cache'']"
    by simp
  note blk = get_cache_dir_resolves [where w = blocked_world and c = "Some ''/tmp/cache''"]
  from blk blocked_cache_dir vp(2)
  have b: "\<exists>e. get_cache_dir blocked_world (Some ''/tmp/cache'') = (Inl e, blocked_world)"
    by (simp add: cdb)
  have isd: "is_dir (fs example_world) [''tmp'', ''cache'']"
    by (simp add: is_dir_def example_world_def)
  from run d f again b cd cdb isd vp example_new_cache_dir blocked_cache_dir example_cache_dir
  show ?thesis by auto
qed

text \<open>
  C8 as stated fails: for the empty string as the custom path the result is the
  default directory, not the path that the string denotes; and with a regular
  file in the place of the directory the call raises instead of returning a
  directory.
\<close>

theorem get_cache_dir_counterexample:
  "fst (get_cache_dir example_world (Some [])) = Inr [''home'', ''user'', ''.statscan_cache''] \<and>
   Path [] \<noteq> [''home'', ''user'', ''.statscan_cache''] \<and>
   get_cache_dir blocked_world (Some ''/tmp/cache'') =
     (Inl (Error FileExistsError ''[Errno 17] File exists''), blocked_world)"
  by (simp add: get_cache_dir_def cache_dir_of_def default_cache_dir Path_def
      example_world_def blocked_world_def)

end
